theory Spec2Isabelle
  imports Main "HOL-Library.Word"
begin

unbundle bit_operations_syntax

section \<open>Shared data model of the bitbang driver\<close>

text \<open>
  The driver \<^verbatim>\<open>src/jtag/drivers/bitbang.c\<close> has a JTAG half (TAP moves, scans, the
  command-queue executor, on a pin-level interface) and an SWD half (register
  transactions over an ASCII-hex protocol on a serial descriptor). Both are embedded
  here by explicit state passing. What a C function does besides returning is a
  constructor of \<open>outcome\<close>:
  \<^item> \<open>Done r s\<close>: the function returns \<open>r\<close> in state \<open>s\<close>;
  \<^item> \<open>Blocked s\<close>: a \<^verbatim>\<open>while(1)\<close> read loop never leaves, the state stays \<open>s\<close>;
  \<^item> \<open>Exit\<close>: \<^verbatim>\<open>exit(-1)\<close> after \<^verbatim>\<open>LOG_ERROR\<close>, or a failed \<^verbatim>\<open>assert\<close>;
  \<^item> \<open>Undefined\<close>: an array is indexed outside its bounds (no defined behaviour in C);
  \<^item> \<open>OutOfFuel\<close>: the bound on transaction attempts given to the SWD retry loop
    is used up (a device of the model, the C loop has no bound).
\<close>

datatype ('r, 's) outcome = Done 'r 's | Blocked 's | Exit | Undefined | OutOfFuel

text \<open>Sequencing: the second step runs only when the first returns.\<close>

fun and_then :: "('a, 's) outcome \<Rightarrow> ('a \<Rightarrow> 's \<Rightarrow> ('b, 's) outcome) \<Rightarrow> ('b, 's) outcome" where
  "and_then (Done r s) f = f r s"
| "and_then (Blocked s) f = Blocked s"
| "and_then Exit f = Exit"
| "and_then Undefined f = Undefined"
| "and_then OutOfFuel f = OutOfFuel"

type_synonym u8 = "8 word"
type_synonym u32 = "32 word"

text \<open>Error codes of \<^verbatim>\<open>helper/log.h\<close> and \<^verbatim>\<open>jtag/jtag.h\<close> (headers outside the file).\<close>

definition ERROR_OK :: int where "ERROR_OK = 0"
definition ERROR_FAIL :: int where "ERROR_FAIL = - 4"
definition ERROR_JTAG_QUEUE_FAILED :: int where "ERROR_JTAG_QUEUE_FAILED = - 104"

section \<open>JTAG: TAP state, oracle and pin interface\<close>

text \<open>The enumeration \<^verbatim>\<open>tap_state_t\<close>: the sixteen states of IEEE 1149.1.\<close>

datatype tap_state =
    TAP_DREXIT2 | TAP_DREXIT1 | TAP_DRSHIFT | TAP_DRPAUSE
  | TAP_IRSELECT | TAP_DRUPDATE | TAP_DRCAPTURE | TAP_DRSELECT
  | TAP_IREXIT2 | TAP_IREXIT1 | TAP_IRSHIFT | TAP_IRPAUSE
  | TAP_IDLE | TAP_IRUPDATE | TAP_IRCAPTURE | TAP_RESET

text \<open>
  The TAP state table lives in \<^verbatim>\<open>jtag/interface.c\<close>, outside the file: the driver
  only calls it. It is a parameter of every function that uses it.
\<close>

record tap_oracle =
  tap_is_state_stable :: "tap_state \<Rightarrow> bool"
  tap_get_tms_path :: "tap_state \<Rightarrow> tap_state \<Rightarrow> u8"
  tap_get_tms_path_len :: "tap_state \<Rightarrow> tap_state \<Rightarrow> int"
  tap_state_transition :: "tap_state \<Rightarrow> bool \<Rightarrow> tap_state"

text \<open>
  \<^verbatim>\<open>struct bitbang_interface\<close>: the callbacks \<^verbatim>\<open>read\<close>, \<^verbatim>\<open>write\<close>, \<^verbatim>\<open>reset\<close> and the
  optional \<^verbatim>\<open>blink\<close>. The calls the driver makes are recorded in order as
  \<open>pin_event\<close>s; \<open>iface_read k\<close> is what the \<open>k\<close>-th call of \<^verbatim>\<open>read()\<close> returns.
  The driver passes only 0 and 1 for TCK, TMS and TDI, written as booleans.
\<close>

datatype pin_event =
    Write bool bool bool
  | Sample int
  | Reset int int
  | Blink int
  | Sleep u32

record bitbang_interface =
  iface_read :: "nat \<Rightarrow> int"
  iface_has_blink :: bool

text \<open>
  The session: \<^verbatim>\<open>tap_get_state()\<close>, \<^verbatim>\<open>tap_get_end_state()\<close>, the calls made on the
  interface so far, the number of \<^verbatim>\<open>read()\<close> calls among them, and the scan buffers
  handed to \<^verbatim>\<open>jtag_read_buffer\<close> so far.
\<close>

record jtag_state =
  cur_state :: tap_state
  end_state :: tap_state
  pins :: "pin_event list"
  reads :: nat
  read_back :: "u8 list list"

definition iface_write :: "bool \<Rightarrow> bool \<Rightarrow> bool \<Rightarrow> jtag_state \<Rightarrow> jtag_state" where
  "iface_write tck tms tdi st = st\<lparr>pins := pins st @ [Write tck tms tdi]\<rparr>"

definition iface_sample :: "bitbang_interface \<Rightarrow> jtag_state \<Rightarrow> int \<times> jtag_state" where
  "iface_sample ifc st =
     (let v = iface_read ifc (reads st)
      in (v, st\<lparr>pins := pins st @ [Sample v], reads := Suc (reads st)\<rparr>))"

definition CLOCK_IDLE :: bool where
  "CLOCK_IDLE = False"

section \<open>JTAG: the TAP driver\<close>

definition bitbang_end_state :: "tap_oracle \<Rightarrow> tap_state \<Rightarrow> jtag_state \<Rightarrow> (unit, jtag_state) outcome" where
  "bitbang_end_state orc state st =
     (if tap_is_state_stable orc state then Done () (st\<lparr>end_state := state\<rparr>) else Exit)"

text \<open>
  One pass of the loop body of \<^verbatim>\<open>bitbang_state_move\<close> at index \<open>i\<close>: the pair is the
  local \<^verbatim>\<open>tms\<close> and the session.
\<close>

definition state_move_step :: "u8 \<Rightarrow> nat \<Rightarrow> bool \<times> jtag_state \<Rightarrow> bool \<times> jtag_state" where
  "state_move_step tms_scan i acc =
     (let tms = bit tms_scan i
      in (tms, iface_write True tms False (iface_write False tms False (snd acc))))"

text \<open>
  \<^verbatim>\<open>for (i = skip; i < tms_count; i++)\<close> runs over \<open>[skip..<nat tms_count]\<close>, which is
  empty when \<^verbatim>\<open>tms_count\<close> is not above \<^verbatim>\<open>skip\<close>. The callers pass 0 or 1 for \<^verbatim>\<open>skip\<close>.
\<close>

definition bitbang_state_move :: "tap_oracle \<Rightarrow> nat \<Rightarrow> jtag_state \<Rightarrow> jtag_state" where
  "bitbang_state_move orc skip st =
     (let tms_scan = tap_get_tms_path orc (cur_state st) (end_state st);
          tms_count = tap_get_tms_path_len orc (cur_state st) (end_state st);
          (tms, st1) = fold (state_move_step tms_scan) [skip..<nat tms_count] (False, st);
          st2 = iface_write CLOCK_IDLE tms False st1
      in st2\<lparr>cur_state := end_state st2\<rparr>)"

text \<open>
  \<^verbatim>\<open>bitbang_execute_tms\<close>: bit \<open>i\<close> of the command's buffer is \<^verbatim>\<open>(bits[i/8] >> (i % 8)) & 1\<close>.
  A buffer shorter than \<^verbatim>\<open>num_bits\<close> bits is read outside its bounds.
\<close>

fun tms_loop :: "u8 list \<Rightarrow> nat list \<Rightarrow> bool \<Rightarrow> jtag_state \<Rightarrow> (bool, jtag_state) outcome" where
  "tms_loop bits [] tms st = Done tms st"
| "tms_loop bits (i # rest) tms st =
     (if i div 8 < length bits
      then let tms' = bit (bits ! (i div 8)) (i mod 8)
           in tms_loop bits rest tms' (iface_write True tms' False (iface_write False tms' False st))
      else Undefined)"

definition bitbang_execute_tms :: "nat \<Rightarrow> u8 list \<Rightarrow> jtag_state \<Rightarrow> (int, jtag_state) outcome" where
  "bitbang_execute_tms num_bits bits st =
     and_then (tms_loop bits [0..<num_bits] False st)
       (\<lambda>tms st1. Done ERROR_OK (iface_write CLOCK_IDLE tms False st1))"

text \<open>\<^verbatim>\<open>bitbang_path_move\<close>: the list is \<^verbatim>\<open>cmd->path\<close>, its length \<^verbatim>\<open>cmd->num_states\<close>.\<close>

fun path_move_loop :: "tap_oracle \<Rightarrow> tap_state list \<Rightarrow> bool \<Rightarrow> jtag_state \<Rightarrow> (bool, jtag_state) outcome" where
  "path_move_loop orc [] tms st = Done tms st"
| "path_move_loop orc (next_state # rest) tms st =
     (if tap_state_transition orc (cur_state st) False = next_state
      then path_move_loop orc rest False
             ((iface_write True False False (iface_write False False False st))\<lparr>cur_state := next_state\<rparr>)
      else if tap_state_transition orc (cur_state st) True = next_state
      then path_move_loop orc rest True
             ((iface_write True True False (iface_write False True False st))\<lparr>cur_state := next_state\<rparr>)
      else Exit)"

definition bitbang_path_move :: "tap_oracle \<Rightarrow> tap_state list \<Rightarrow> jtag_state \<Rightarrow> (unit, jtag_state) outcome" where
  "bitbang_path_move orc path st =
     and_then (path_move_loop orc path False st)
       (\<lambda>tms st1. let st2 = iface_write CLOCK_IDLE tms False st1
                   in Done () (st2\<lparr>end_state := cur_state st2\<rparr>))"

definition runtest_cycle :: "nat \<Rightarrow> jtag_state \<Rightarrow> jtag_state" where
  "runtest_cycle i st = iface_write True False False (iface_write False False False st)"

definition bitbang_runtest :: "tap_oracle \<Rightarrow> int \<Rightarrow> jtag_state \<Rightarrow> (unit, jtag_state) outcome" where
  "bitbang_runtest orc num_cycles st =
     (let saved_end_state = end_state st
      in and_then
           (if cur_state st \<noteq> TAP_IDLE
            then and_then (bitbang_end_state orc TAP_IDLE st)
                   (\<lambda>u st1. Done () (bitbang_state_move orc 0 st1))
            else Done () st)
           (\<lambda>u st2.
              let st3 = fold runtest_cycle [0..<nat num_cycles] st2;
                  st4 = iface_write CLOCK_IDLE False False st3
              in and_then (bitbang_end_state orc saved_end_state st4)
                   (\<lambda>u st5. if cur_state st5 \<noteq> end_state st5
                             then Done () (bitbang_state_move orc 0 st5)
                             else Done () st5)))"

definition stableclocks_cycle :: "bool \<Rightarrow> nat \<Rightarrow> jtag_state \<Rightarrow> jtag_state" where
  "stableclocks_cycle tms i st = iface_write False tms False (iface_write True tms False st)"

definition bitbang_stableclocks :: "int \<Rightarrow> jtag_state \<Rightarrow> jtag_state" where
  "bitbang_stableclocks num_cycles st =
     (let tms = (cur_state st = TAP_RESET)
      in fold (stableclocks_cycle tms) [0..<nat num_cycles] st)"

text \<open>\<^verbatim>\<open>enum scan_type\<close> of \<^verbatim>\<open>jtag/commands.h\<close>.\<close>

datatype scan_type = SCAN_IN | SCAN_OUT | SCAN_IO

text \<open>
  The shift loop of \<^verbatim>\<open>bitbang_scan\<close>, one equation per pass. \<^verbatim>\<open>bcval\<close> is
  \<^verbatim>\<open>1 << (bit_cnt % 8)\<close>; every pass reads or writes \<^verbatim>\<open>buffer[bytec]\<close>, so a buffer
  of fewer than \<^verbatim>\<open>scan_size\<close> bits is indexed outside its bounds.
\<close>

fun scan_loop :: "bitbang_interface \<Rightarrow> scan_type \<Rightarrow> int \<Rightarrow> nat list \<Rightarrow> u8 list \<Rightarrow> jtag_state
    \<Rightarrow> (u8 list, jtag_state) outcome" where
  "scan_loop ifc type scan_size [] buffer st = Done buffer st"
| "scan_loop ifc type scan_size (bit_cnt # rest) buffer st =
     (let tms = (int bit_cnt = scan_size - 1);
          bytec = bit_cnt div 8;
          bcval = (push_bit (bit_cnt mod 8) 1 :: u8)
      in if bytec < length buffer
         then
           let tdi = (type \<noteq> SCAN_IN \<and> (buffer ! bytec) AND bcval \<noteq> 0);
               st1 = iface_write False tms tdi st;
               (val, st2) = (if type \<noteq> SCAN_OUT then iface_sample ifc st1 else (0, st1));
               st3 = iface_write True tms tdi st2;
               buffer' =
                 (if type \<noteq> SCAN_OUT
                  then (if val \<noteq> 0
                        then buffer[bytec := (buffer ! bytec) OR bcval]
                        else buffer[bytec := (buffer ! bytec) AND NOT bcval])
                  else buffer)
           in scan_loop ifc type scan_size rest buffer' st3
         else Undefined)"

definition bitbang_scan :: "tap_oracle \<Rightarrow> bitbang_interface \<Rightarrow> bool \<Rightarrow> scan_type \<Rightarrow> u8 list \<Rightarrow> int
    \<Rightarrow> jtag_state \<Rightarrow> (u8 list, jtag_state) outcome" where
  "bitbang_scan orc ifc ir_scan type buffer scan_size st =
     (let saved_end_state = end_state st
      in and_then
           (if \<not> ((\<not> ir_scan \<and> cur_state st = TAP_DRSHIFT) \<or> (ir_scan \<and> cur_state st = TAP_IRSHIFT))
            then and_then
                   (if ir_scan then bitbang_end_state orc TAP_IRSHIFT st
                    else bitbang_end_state orc TAP_DRSHIFT st)
                   (\<lambda>u st1. bitbang_end_state orc saved_end_state (bitbang_state_move orc 0 st1))
            else Done () st)
           (\<lambda>u st2.
              and_then (scan_loop ifc type scan_size [0..<nat scan_size] buffer st2)
                (\<lambda>buffer' st3.
                   if cur_state st3 \<noteq> end_state st3
                   then Done buffer' (bitbang_state_move orc 1 st3)
                   else Done buffer' st3)))"

section \<open>JTAG: the queue executor\<close>

text \<open>
  A scan command as the executor sees it. \<^verbatim>\<open>jtag_build_buffer\<close>, \<^verbatim>\<open>jtag_scan_type\<close> and
  \<^verbatim>\<open>jtag_read_buffer\<close> are functions of the JTAG core, outside the file: what they
  return for this command is carried by the command. \<open>read_buffer_result\<close> is the
  status \<^verbatim>\<open>jtag_read_buffer\<close> returns for the scanned buffer it is given.
\<close>

record scan_command =
  ir_scan :: bool
  scan_end_state :: tap_state
  built_size :: int
  built_buffer :: "u8 list"
  built_type :: scan_type
  read_buffer_result :: "u8 list \<Rightarrow> int"

text \<open>
  \<^verbatim>\<open>struct jtag_command\<close> by its \<^verbatim>\<open>type\<close> tag; \<open>JTAG_OTHER\<close> is any tag the
  \<^verbatim>\<open>switch\<close> has no case for.
\<close>

datatype jtag_command =
    JTAG_RESET int int
  | JTAG_RUNTEST int tap_state
  | JTAG_STABLECLOCKS int
  | JTAG_TLR_RESET tap_state
  | JTAG_PATHMOVE "tap_state list"
  | JTAG_SCAN scan_command
  | JTAG_SLEEP u32
  | JTAG_TMS nat "u8 list"
  | JTAG_OTHER

text \<open>
  One pass of the \<^verbatim>\<open>switch\<close>: the result is the new value of the local \<^verbatim>\<open>retval\<close>.
  \<open>srst_pulls_trst\<close> is \<^verbatim>\<open>jtag_get_reset_config() & RESET_SRST_PULLS_TRST\<close>.
\<close>

fun execute_command :: "tap_oracle \<Rightarrow> bitbang_interface \<Rightarrow> bool \<Rightarrow> jtag_command \<Rightarrow> int \<Rightarrow> jtag_state
    \<Rightarrow> (int, jtag_state) outcome" where
  "execute_command orc ifc srst_pulls_trst (JTAG_RESET trst srst) retval st =
     (let st1 = (if trst = 1 \<or> (srst \<noteq> 0 \<and> srst_pulls_trst)
                 then st\<lparr>cur_state := TAP_RESET\<rparr> else st)
      in Done retval (st1\<lparr>pins := pins st1 @ [Reset trst srst]\<rparr>))"
| "execute_command orc ifc srst_pulls_trst (JTAG_RUNTEST num_cycles state) retval st =
     and_then (bitbang_end_state orc state st)
       (\<lambda>u st1. and_then (bitbang_runtest orc num_cycles st1) (\<lambda>u st2. Done retval st2))"
| "execute_command orc ifc srst_pulls_trst (JTAG_STABLECLOCKS num_cycles) retval st =
     Done retval (bitbang_stableclocks num_cycles st)"
| "execute_command orc ifc srst_pulls_trst (JTAG_TLR_RESET state) retval st =
     and_then (bitbang_end_state orc state st)
       (\<lambda>u st1. Done retval (bitbang_state_move orc 0 st1))"
| "execute_command orc ifc srst_pulls_trst (JTAG_PATHMOVE path) retval st =
     and_then (bitbang_path_move orc path st) (\<lambda>u st1. Done retval st1)"
| "execute_command orc ifc srst_pulls_trst (JTAG_SCAN scan) retval st =
     and_then (bitbang_end_state orc (scan_end_state scan) st)
       (\<lambda>u st1.
          and_then (bitbang_scan orc ifc (ir_scan scan) (built_type scan) (built_buffer scan)
                      (built_size scan) st1)
            (\<lambda>buffer st2.
               Done (if read_buffer_result scan buffer \<noteq> ERROR_OK
                     then ERROR_JTAG_QUEUE_FAILED else retval)
                    (st2\<lparr>read_back := read_back st2 @ [buffer]\<rparr>)))"
| "execute_command orc ifc srst_pulls_trst (JTAG_SLEEP us) retval st =
     Done retval (st\<lparr>pins := pins st @ [Sleep us]\<rparr>)"
| "execute_command orc ifc srst_pulls_trst (JTAG_TMS num_bits bits) retval st =
     bitbang_execute_tms num_bits bits st"
| "execute_command orc ifc srst_pulls_trst JTAG_OTHER retval st = Exit"

text \<open>\<^verbatim>\<open>while (cmd) { switch ...; cmd = cmd->next; }\<close>\<close>

fun execute_commands :: "tap_oracle \<Rightarrow> bitbang_interface \<Rightarrow> bool \<Rightarrow> jtag_command list \<Rightarrow> int \<Rightarrow> jtag_state
    \<Rightarrow> (int, jtag_state) outcome" where
  "execute_commands orc ifc srst_pulls_trst [] retval st = Done retval st"
| "execute_commands orc ifc srst_pulls_trst (cmd # rest) retval st =
     and_then (execute_command orc ifc srst_pulls_trst cmd retval st)
       (execute_commands orc ifc srst_pulls_trst rest)"

definition blink :: "bitbang_interface \<Rightarrow> int \<Rightarrow> jtag_state \<Rightarrow> jtag_state" where
  "blink ifc on st = (if iface_has_blink ifc then st\<lparr>pins := pins st @ [Blink on]\<rparr> else st)"

text \<open>
  \<^verbatim>\<open>bitbang_execute_queue\<close>. The global \<^verbatim>\<open>bitbang_interface\<close> is a pointer: \<open>None\<close> is
  the null pointer of a driver that was not initialised.
\<close>

definition bitbang_execute_queue :: "tap_oracle \<Rightarrow> bitbang_interface option \<Rightarrow> bool \<Rightarrow> jtag_command list
    \<Rightarrow> jtag_state \<Rightarrow> (int, jtag_state) outcome" where
  "bitbang_execute_queue orc bitbang_interface srst_pulls_trst jtag_command_queue st =
     (case bitbang_interface of
        None \<Rightarrow> Exit
      | Some ifc \<Rightarrow>
          and_then (execute_commands orc ifc srst_pulls_trst jtag_command_queue ERROR_OK (blink ifc 1 st))
            (\<lambda>retval st1. Done retval (blink ifc 0 st1)))"

section \<open>SWD: the serial transport\<close>

text \<open>
  The process-wide state of the SWD half: the globals \<^verbatim>\<open>swd_mode\<close>, \<^verbatim>\<open>fd\<close>,
  \<^verbatim>\<open>local_buf[1024]\<close> and \<^verbatim>\<open>queued_retval\<close>, and the byte stream behind \<^verbatim>\<open>fd\<close>:
  \<^item> \<open>tx\<close>: the bytes handed to \<^verbatim>\<open>write(fd, ...)\<close> so far, in order (the driver ignores
    what \<^verbatim>\<open>write\<close> returns);
  \<^item> \<open>rx\<close>: what the coming calls of \<^verbatim>\<open>read(fd, hex, sizeof(hex))\<close> deliver, one list
    per call (empty for a call that returns 0 or -1); after the last one the
    adapter stays silent, so every further call delivers nothing;
  \<^item> \<open>slept\<close>: the microseconds spent in \<^verbatim>\<open>usleep\<close>;
  \<^item> \<open>stack_byte\<close> and \<open>frame\<close>: what the automatic arrays hold where they are declared.
    C leaves that indeterminate, and anew each time the declaration is passed:
    \<open>stack_byte k i\<close> is byte \<open>i\<close> of the array declared as the \<open>k\<close>-th of the process, and
    \<open>frame\<close> counts the declarations passed so far.
\<close>

record swd_state =
  swd_mode :: bool
  fd :: int
  tx :: "u8 list"
  rx :: "u8 list list"
  slept :: nat
  local_buf :: "u8 list"
  queued_retval :: int
  stack_byte :: "nat \<Rightarrow> nat \<Rightarrow> u8"
  frame :: nat

definition fd_write :: "u8 list \<Rightarrow> swd_state \<Rightarrow> swd_state" where
  "fd_write bytes st = st\<lparr>tx := tx st @ bytes\<rparr>"

definition usleep :: "nat \<Rightarrow> swd_state \<Rightarrow> swd_state" where
  "usleep us st = st\<lparr>slept := slept st + us\<rparr>"

text \<open>
  \<^verbatim>\<open>bitbang_swd_init\<close>; \<open>opened\<close> is what \<^verbatim>\<open>open("/dev/ttyACM0", ...)\<close> returns. The
  terminal settings made afterwards do not show in this model.
\<close>

definition bitbang_swd_init :: "int \<Rightarrow> swd_state \<Rightarrow> int \<times> swd_state" where
  "bitbang_swd_init opened st =
     (let st1 = st\<lparr>swd_mode := True, fd := opened\<rparr>
      in if opened < 0 then (ERROR_FAIL, st1) else (ERROR_OK, st1))"

text \<open>
  The macro \<^verbatim>\<open>DIV_ROUND_UP(m, n)\<close> of \<^verbatim>\<open>helper/types.h\<close>, \<^verbatim>\<open>((m) + (n) - 1) / (n)\<close>, in
  the unsigned 32-bit arithmetic of its arguments here.
\<close>

definition DIV_ROUND_UP :: "u32 \<Rightarrow> u32 \<Rightarrow> u32" where
  "DIV_ROUND_UP m n = (m + n - 1) div n"

text \<open>
  The three macros. \<^verbatim>\<open>GET_UPPER_HEX\<close> and \<^verbatim>\<open>GET_LOWER_HEX\<close> are applied to
  \<^verbatim>\<open>unsigned int\<close>, \<^verbatim>\<open>int\<close> and \<^verbatim>\<open>uint8_t\<close> values that are never negative; the
  result is stored in a \<^verbatim>\<open>char\<close>. \<^verbatim>\<open>HEX_TO_INT\<close> is applied to a \<^verbatim>\<open>char\<close>
  promoted to \<^verbatim>\<open>int\<close>.
\<close>

definition GET_UPPER_HEX :: "u32 \<Rightarrow> u8" where
  "GET_UPPER_HEX x =
     (if (drop_bit 4 x AND 0x0F) > 9
      then ucast ((drop_bit 4 x AND 0x0F) - 10 + 0x41)
      else ucast ((drop_bit 4 x AND 0x0F) + 0x30))"

definition GET_LOWER_HEX :: "u32 \<Rightarrow> u8" where
  "GET_LOWER_HEX x =
     (if (x AND 0x0F) > 9
      then ucast ((x AND 0x0F) - 10 + 0x41)
      else ucast ((x AND 0x0F) + 0x30))"

definition HEX_TO_INT :: "int \<Rightarrow> int" where
  "HEX_TO_INT x = (if x \<ge> 0x41 then x - 0x41 + 10 else x - 0x30)"

text \<open>
  The seven bytes of \<^verbatim>\<open>hex[0..6]\<close>: \<open>data_len\<close> is \<open>None\<close> where \<^verbatim>\<open>buf\<close> is the null
  pointer.
\<close>

definition exchange_header :: "u8 \<Rightarrow> u32 \<Rightarrow> u32 \<Rightarrow> nat option \<Rightarrow> u8 list" where
  "exchange_header opcode bit_cnt offset data_len =
     [opcode, GET_UPPER_HEX bit_cnt, GET_LOWER_HEX bit_cnt,
      GET_UPPER_HEX offset, GET_LOWER_HEX offset]
     @ (case data_len of
          Some n \<Rightarrow> [GET_UPPER_HEX (of_nat n), GET_LOWER_HEX (of_nat n)]
        | None \<Rightarrow> [0x30, 0x30])"

text \<open>
  One received character \<^verbatim>\<open>hex[i]\<close>: the pair is \<^verbatim>\<open>data_cnt\<close> and \<^verbatim>\<open>local_buf\<close>.
  \<^verbatim>\<open>hex\<close> is an array of plain \<^verbatim>\<open>char\<close>, read here as signed (the characters
  \<^verbatim>\<open>0\<close>..\<^verbatim>\<open>9\<close> and \<^verbatim>\<open>A\<close>..\<^verbatim>\<open>F\<close> are the same either way). \<open>None\<close>: the index
  \<^verbatim>\<open>data_cnt / 2\<close> is outside \<^verbatim>\<open>local_buf\<close>.
\<close>

definition rx_char :: "u8 \<Rightarrow> nat \<times> u8 list \<Rightarrow> (nat \<times> u8 list) option" where
  "rx_char c acc =
     (let data_cnt = fst acc; buf = snd acc; k = data_cnt div 2
      in if k < length buf
         then Some (data_cnt + 1,
                    if even data_cnt
                    then buf[k := word_of_int (HEX_TO_INT (sint c) * 16)]
                    else buf[k := (buf ! k) OR word_of_int (HEX_TO_INT (sint c))])
         else None)"

text \<open>\<^verbatim>\<open>for (i = 0; i < n; i++)\<close> over the characters one \<^verbatim>\<open>read\<close> delivered.\<close>

fun rx_chunk :: "u8 list \<Rightarrow> nat \<times> u8 list \<Rightarrow> (nat \<times> u8 list) option" where
  "rx_chunk [] acc = Some acc"
| "rx_chunk (c # cs) acc = (case rx_char c acc of None \<Rightarrow> None | Some acc' \<Rightarrow> rx_chunk cs acc')"

text \<open>
  The \<^verbatim>\<open>while(1)\<close> loop of both directions: read, assemble, and leave when
  \<^verbatim>\<open>data_cnt / 2\<close> equals \<open>target\<close> after a read. The list is what the coming reads
  deliver. When it is used up every further read delivers nothing (the descriptor
  is set to time out), so \<^verbatim>\<open>data_cnt\<close> stays: the loop leaves after the next read if
  \<^verbatim>\<open>data_cnt / 2\<close> equals \<open>target\<close> already, and never otherwise. The result is the
  final \<^verbatim>\<open>data_cnt\<close>.
\<close>

fun response_loop :: "nat \<Rightarrow> u8 list list \<Rightarrow> nat \<Rightarrow> swd_state \<Rightarrow> (nat, swd_state) outcome" where
  "response_loop target [] data_cnt st =
     (if data_cnt div 2 = target then Done data_cnt (st\<lparr>rx := []\<rparr>) else Blocked (st\<lparr>rx := []\<rparr>))"
| "response_loop target (chunk # rest) data_cnt st =
     (case rx_chunk chunk (data_cnt, local_buf st) of
        None \<Rightarrow> Undefined
      | Some (data_cnt', buf) \<Rightarrow>
          (let st' = st\<lparr>rx := rest, local_buf := buf\<rparr>
           in if data_cnt' div 2 = target then Done data_cnt' st'
              else response_loop target rest data_cnt' st'))"

text \<open>
  The copy loop of the read direction,
  \<^verbatim>\<open>for (i = offset; (unsigned int)i < bit_cnt + offset; i++)\<close>, one equation per pass.
  \<^verbatim>\<open>i\<close> is an \<^verbatim>\<open>int\<close>: from \<open>2 ^ 31\<close> on it is negative and indexes before the arrays.
\<close>

fun copy_bits :: "u8 list \<Rightarrow> nat list \<Rightarrow> u8 list \<Rightarrow> u8 list option" where
  "copy_bits src [] buf = Some buf"
| "copy_bits src (i # rest) buf =
     (let bytec = i div 8; bcval = (push_bit (i mod 8) 1 :: u8)
      in if bytec < length src \<and> bytec < length buf \<and> i < 2 ^ 31
         then copy_bits src rest
                (if (src ! bytec) AND bcval \<noteq> 0
                 then buf[bytec := (buf ! bytec) OR bcval]
                 else buf[bytec := (buf ! bytec) AND NOT bcval])
         else None)"

text \<open>The payload of a write: two characters for each of \<^verbatim>\<open>buf[0..data_len)\<close>.\<close>

definition payload_hex :: "u8 list \<Rightarrow> u8 list" where
  "payload_hex bytes = concat (map (\<lambda>b. [GET_UPPER_HEX (ucast b), GET_LOWER_HEX (ucast b)]) bytes)"

text \<open>
  \<^verbatim>\<open>bitbang_exchange(rnw, buf, offset, bit_cnt)\<close>. \<open>buf\<close> is \<open>None\<close> for the null
  pointer; the result is the buffer after the call.
\<close>

definition bitbang_exchange :: "bool \<Rightarrow> u8 list option \<Rightarrow> u32 \<Rightarrow> u32 \<Rightarrow> swd_state
    \<Rightarrow> (u8 list option, swd_state) outcome" where
  "bitbang_exchange rnw buf offset bit_cnt st =
     (let data_len = unat (DIV_ROUND_UP (bit_cnt + offset) 8)
      in if rnw
         then
           (let st1 = fd_write (exchange_header 0xF1 bit_cnt offset (map_option (\<lambda>b. data_len) buf)) st
            in case buf of
                 None \<Rightarrow> Done None (usleep 10000 st1)
               | Some b \<Rightarrow>
                   and_then (response_loop data_len (rx st1) 0 st1)
                     (\<lambda>data_cnt st2.
                        case copy_bits (local_buf st2) [unat offset..<unat (bit_cnt + offset)] b of
                          None \<Rightarrow> Undefined
                        | Some b' \<Rightarrow> Done (Some b') st2))
         else
           (let st1 = fd_write (exchange_header 0xF0 bit_cnt offset (map_option (\<lambda>b. data_len) buf)) st
            in case buf of
                 None \<Rightarrow>
                   and_then (response_loop 1 (rx st1) 0 st1) (\<lambda>data_cnt st2. Done None st2)
               | Some b \<Rightarrow>
                   if data_len \<le> length b
                   then (let st2 = fd_write (payload_hex (take data_len b)) st1
                         in and_then (response_loop 1 (rx st2) 0 st2) (\<lambda>data_cnt st3. Done (Some b) st3))
                   else Undefined))"

definition bitbang_interface_swdio_drive :: "bool \<Rightarrow> swd_state \<Rightarrow> swd_state" where
  "bitbang_interface_swdio_drive out st = (if out then fd_write [0xE1] st else fd_write [0xE0] st)"

section \<open>SWD: the protocol engine\<close>

text \<open>Constants of \<^verbatim>\<open>jtag/swd.h\<close> and \<^verbatim>\<open>target/arm_adi_v5.h\<close>, headers outside the file.\<close>

definition SWD_CMD_START :: u8 where "SWD_CMD_START = 0x01"
definition SWD_CMD_APnDP :: u8 where "SWD_CMD_APnDP = 0x02"
definition SWD_CMD_RnW :: u8 where "SWD_CMD_RnW = 0x04"
definition SWD_CMD_PARK :: u8 where "SWD_CMD_PARK = 0x80"

definition SWD_ACK_OK :: u32 where "SWD_ACK_OK = 1"
definition SWD_ACK_WAIT :: u32 where "SWD_ACK_WAIT = 2"
definition SWD_ACK_FAULT :: u32 where "SWD_ACK_FAULT = 4"

text \<open>
  Modelled from the spec: \<^verbatim>\<open>swd_cmd(false, false, DP_ABORT)\<close> and the value
  \<^verbatim>\<open>STKCMPCLR | STKERRCLR | WDERRCLR | ORUNERRCLR\<close> are built from a helper and
  constants outside the file. The spec has the clear-sticky-errors write as a write
  to the abort register with a fixed value: a DP write (both \<^verbatim>\<open>APnDP\<close> and \<^verbatim>\<open>RnW\<close>
  clear) to register address 0, and the four clear bits of that register.
\<close>

definition abort_cmd :: u8 where "abort_cmd = 0x00"
definition sticky_clear_value :: u32 where "sticky_clear_value = 0x1E"

text \<open>
  Modelled from the spec: \<^verbatim>\<open>buf_get_u32\<close>, \<^verbatim>\<open>buf_set_u32\<close> and \<^verbatim>\<open>parity_u32\<close> are helpers
  of \<^verbatim>\<open>helper/binarybuffer.h\<close> and \<^verbatim>\<open>helper/types.h\<close>, outside the file. The spec has
  the fields of a transaction as runs of bits of the exchanged buffer (bit \<open>i\<close> of a
  buffer is bit \<open>i mod 8\<close> of its byte \<open>i div 8\<close>, as in the copy loop of the
  transport) and the parity as one bit computed over the 32-bit value: the field
  of \<open>num\<close> bits from bit \<open>first\<close> is read or overwritten, the lowest bit first, and
  the parity is 1 when the number of set bits is odd.
\<close>

definition buf_get_u32 :: "u8 list \<Rightarrow> nat \<Rightarrow> nat \<Rightarrow> u32" where
  "buf_get_u32 buffer first num =
     fold (\<lambda>i result. if bit (buffer ! (i div 8)) (i mod 8)
                       then result OR push_bit (i - first) 1 else result)
       [first..<first + num] 0"

definition buf_set_u32 :: "u8 list \<Rightarrow> nat \<Rightarrow> nat \<Rightarrow> u32 \<Rightarrow> u8 list" where
  "buf_set_u32 buffer first num v =
     fold (\<lambda>i buf. if bit v (i - first)
                    then buf[i div 8 := (buf ! (i div 8)) OR push_bit (i mod 8) 1]
                    else buf[i div 8 := (buf ! (i div 8)) AND NOT (push_bit (i mod 8) 1)])
       [first..<first + num] buffer"

definition parity_u32 :: "u32 \<Rightarrow> u32" where
  "parity_u32 x = (if odd (length (filter (bit x) [0..<32])) then 1 else 0)"

text \<open>
  The automatic array \<^verbatim>\<open>trn_ack_data_parity_trn\<close> of
  \<^verbatim>\<open>DIV_ROUND_UP(4 + 3 + 32 + 1 + 4, 8)\<close>, that is six, bytes. It is declared in the
  body of \<^verbatim>\<open>for (;;)\<close>, so every pass of the loop, of whichever call, has an array
  of its own: \<open>trn_ack_data_parity_trn st\<close> is the array the next declaration gives,
  and \<open>next_frame\<close> passes the declaration.
\<close>

definition trn_ack_data_parity_trn :: "swd_state \<Rightarrow> u8 list" where
  "trn_ack_data_parity_trn st = map (stack_byte st (frame st)) [0..<6]"

definition next_frame :: "swd_state \<Rightarrow> swd_state" where
  "next_frame st = st\<lparr>frame := Suc (frame st)\<rparr>"

text \<open>
  The register accesses. The caller's \<^verbatim>\<open>uint32_t *value\<close> of a read is \<open>None\<close> for the
  null pointer and \<open>Some v\<close> for a variable holding \<open>v\<close>; the result is the variable
  after the call. \<^verbatim>\<open>for (;;)\<close> has no bound: the first argument of each loop function
  bounds the number of passes, and \<open>OutOfFuel\<close> says the bound was too small.
  \<^verbatim>\<open>swd_clear_sticky_errors\<close> calls \<^verbatim>\<open>bitbang_swd_write_reg\<close>, which therefore recurses
  through its own loop.
\<close>

fun bitbang_swd_write_reg :: "nat \<Rightarrow> u8 \<Rightarrow> u32 \<Rightarrow> u32 \<Rightarrow> swd_state \<Rightarrow> (unit, swd_state) outcome"
  and swd_write_loop :: "nat \<Rightarrow> u8 \<Rightarrow> u32 \<Rightarrow> u32 \<Rightarrow> swd_state \<Rightarrow> (unit, swd_state) outcome"
where
  "bitbang_swd_write_reg fuel cmd v ap_delay_clk st =
     (if cmd AND SWD_CMD_RnW \<noteq> 0 then Exit
      else if queued_retval st \<noteq> ERROR_OK then Done () st
      else swd_write_loop fuel cmd v ap_delay_clk st)"
| "swd_write_loop 0 cmd v ap_delay_clk st = OutOfFuel"
| "swd_write_loop (Suc fuel) cmd v ap_delay_clk st =
     (let buf0 = buf_set_u32 (buf_set_u32 (trn_ack_data_parity_trn st) (1 + 3 + 1) 32 v)
                   (1 + 3 + 1 + 32) 1 (parity_u32 v);
          cmd' = cmd OR SWD_CMD_START OR SWD_CMD_PARK
      in and_then (bitbang_exchange False (Some [cmd']) 0 8 (next_frame st))
           (\<lambda>b st1.
              and_then (bitbang_exchange True (Some buf0) 0 (1 + 3 + 1)
                          (bitbang_interface_swdio_drive False st1))
                (\<lambda>b1 st2.
                   case b1 of
                     None \<Rightarrow> Undefined
                   | Some buf1 \<Rightarrow>
                       and_then (bitbang_exchange False (Some buf1) (1 + 3 + 1) (32 + 1)
                                   (bitbang_interface_swdio_drive True st2))
                         (\<lambda>b2 st3.
                            let ack = buf_get_u32 buf1 1 3
                            in if ack = SWD_ACK_OK
                               then (if cmd' AND SWD_CMD_APnDP \<noteq> 0
                                     then and_then (bitbang_exchange True None 0 ap_delay_clk st3)
                                            (\<lambda>b3 st4. Done () st4)
                                     else Done () st3)
                               else if ack = SWD_ACK_WAIT
                               then and_then (bitbang_swd_write_reg fuel abort_cmd sticky_clear_value 0 st3)
                                      (\<lambda>u st4. swd_write_loop fuel cmd' v ap_delay_clk st4)
                               else Done () (st3\<lparr>queued_retval := uint ack\<rparr>)))))"

definition swd_clear_sticky_errors :: "nat \<Rightarrow> swd_state \<Rightarrow> (unit, swd_state) outcome" where
  "swd_clear_sticky_errors fuel st = bitbang_swd_write_reg fuel abort_cmd sticky_clear_value 0 st"

fun swd_read_loop :: "nat \<Rightarrow> u8 \<Rightarrow> u32 option \<Rightarrow> u32 \<Rightarrow> swd_state \<Rightarrow> (u32 option, swd_state) outcome" where
  "swd_read_loop 0 cmd val ap_delay_clk st = OutOfFuel"
| "swd_read_loop (Suc fuel) cmd val ap_delay_clk st =
     (let buf0 = trn_ack_data_parity_trn st;
          cmd' = cmd OR SWD_CMD_START OR SWD_CMD_PARK
      in and_then (bitbang_exchange False (Some [cmd']) 0 8 (next_frame st))
           (\<lambda>b st1.
              and_then (bitbang_exchange True (Some buf0) 0 (1 + 3 + 32 + 1 + 1)
                          (bitbang_interface_swdio_drive False st1))
                (\<lambda>b1 st2.
                   case b1 of
                     None \<Rightarrow> Undefined
                   | Some buf1 \<Rightarrow>
                       (let st3 = bitbang_interface_swdio_drive True st2;
                            ack = buf_get_u32 buf1 1 3;
                            data = buf_get_u32 buf1 (1 + 3) 32;
                            parity = buf_get_u32 buf1 (1 + 3 + 32) 1
                        in if ack = SWD_ACK_OK
                           then (if parity \<noteq> parity_u32 data
                                 then Done val (st3\<lparr>queued_retval := ERROR_FAIL\<rparr>)
                                 else (let val' = (case val of None \<Rightarrow> None | Some old \<Rightarrow> Some data)
                                       in if cmd' AND SWD_CMD_APnDP \<noteq> 0
                                          then and_then (bitbang_exchange True None 0 ap_delay_clk st3)
                                                 (\<lambda>b3 st4. Done val' st4)
                                          else Done val' st3))
                           else if ack = SWD_ACK_WAIT
                           then and_then (swd_clear_sticky_errors fuel st3)
                                  (\<lambda>u st4. swd_read_loop fuel cmd' val ap_delay_clk st4)
                           else Done val (st3\<lparr>queued_retval := uint ack\<rparr>)))))"

definition bitbang_swd_read_reg :: "nat \<Rightarrow> u8 \<Rightarrow> u32 option \<Rightarrow> u32 \<Rightarrow> swd_state
    \<Rightarrow> (u32 option, swd_state) outcome" where
  "bitbang_swd_read_reg fuel cmd val ap_delay_clk st =
     (if cmd AND SWD_CMD_RnW = 0 then Exit
      else if queued_retval st \<noteq> ERROR_OK then Done val st
      else swd_read_loop fuel cmd val ap_delay_clk st)"

definition bitbang_swd_run_queue :: "swd_state \<Rightarrow> (int, swd_state) outcome" where
  "bitbang_swd_run_queue st =
     and_then (bitbang_exchange True None 0 8 st)
       (\<lambda>b st1. Done (queued_retval st1) (st1\<lparr>queued_retval := ERROR_OK\<rparr>))"

text \<open>
  \<^verbatim>\<open>enum swd_special_seq\<close>; \<open>OTHER_SEQ\<close> is any value the \<^verbatim>\<open>switch\<close> has no case
  for. The three bit patterns and their lengths are constants of \<^verbatim>\<open>jtag/swd.h\<close>,
  outside the file, and parameters here.
\<close>

datatype swd_special_seq = LINE_RESET | JTAG_TO_SWD | SWD_TO_JTAG | OTHER_SEQ

record swd_sequences =
  swd_seq_line_reset :: "u8 list"
  swd_seq_line_reset_len :: u32
  swd_seq_jtag_to_swd :: "u8 list"
  swd_seq_jtag_to_swd_len :: u32
  swd_seq_swd_to_jtag :: "u8 list"
  swd_seq_swd_to_jtag_len :: u32

fun bitbang_swd_switch_seq :: "swd_sequences \<Rightarrow> swd_special_seq \<Rightarrow> swd_state \<Rightarrow> (int, swd_state) outcome" where
  "bitbang_swd_switch_seq sq LINE_RESET st =
     and_then (bitbang_exchange False (Some (swd_seq_line_reset sq)) 0 (swd_seq_line_reset_len sq) st)
       (\<lambda>b st1. Done ERROR_OK st1)"
| "bitbang_swd_switch_seq sq JTAG_TO_SWD st =
     and_then (bitbang_exchange False (Some (swd_seq_jtag_to_swd sq)) 0 (swd_seq_jtag_to_swd_len sq) st)
       (\<lambda>b st1. Done ERROR_OK st1)"
| "bitbang_swd_switch_seq sq SWD_TO_JTAG st =
     and_then (bitbang_exchange False (Some (swd_seq_swd_to_jtag sq)) 0 (swd_seq_swd_to_jtag_len sq) st)
       (\<lambda>b st1. Done ERROR_OK st1)"
| "bitbang_swd_switch_seq sq OTHER_SEQ st = Done ERROR_FAIL st"

text \<open>
  The state of a process that has not called \<^verbatim>\<open>bitbang_swd_init\<close>: the globals hold
  the zeros C gives them. This one finds zeros on its stack as well.
\<close>

definition swd_start :: "u8 list list \<Rightarrow> swd_state" where
  "swd_start incoming =
     \<lparr>swd_mode = False, fd = 0, tx = [], rx = incoming, slept = 0,
      local_buf = replicate 1024 0, queued_retval = 0, stack_byte = (\<lambda>k i. 0), frame = 0\<rparr>"

section \<open>Reading the pin trace\<close>

text \<open>
  A TCK pulse is a change of TCK from low to high. \<open>tck_pulses lvl es\<close> counts them in
  \<open>es\<close> when TCK is at level \<open>lvl\<close> before.
\<close>

fun tck_pulses :: "bool \<Rightarrow> pin_event list \<Rightarrow> nat" where
  "tck_pulses lvl [] = 0"
| "tck_pulses lvl (Write tck tms tdi # es) = (if tck \<and> \<not> lvl then 1 else 0) + tck_pulses tck es"
| "tck_pulses lvl (e # es) = tck_pulses lvl es"

fun tdi_low :: "pin_event \<Rightarrow> bool" where
  "tdi_low (Write tck tms tdi) = (\<not> tdi)"
| "tdi_low e = True"

fun tck_low :: "pin_event \<Rightarrow> bool" where
  "tck_low (Write tck tms tdi) = (\<not> tck)"
| "tck_low e = False"

text \<open>The events a call added: the trace after, without the trace before.\<close>

definition issued :: "jtag_state \<Rightarrow> jtag_state \<Rightarrow> pin_event list" where
  "issued st st' = drop (length (pins st)) (pins st')"

text \<open>The two writes of one clock pulse with the given TMS and TDI.\<close>

definition pulse :: "bool \<Rightarrow> bool \<Rightarrow> pin_event list" where
  "pulse tms tdi = [Write False tms tdi, Write True tms tdi]"

section \<open>Reading buffers and results\<close>

text \<open>Bit \<open>i\<close> of a buffer: bit \<open>i mod 8\<close> of its byte \<open>i div 8\<close>.\<close>

definition get_bit :: "u8 list \<Rightarrow> nat \<Rightarrow> bool" where
  "get_bit buffer i = bit (buffer ! (i div 8)) (i mod 8)"

text \<open>What a call returns, when it returns.\<close>

fun retval_of :: "('r, 's) outcome \<Rightarrow> 'r option" where
  "retval_of (Done r s) = Some r"
| "retval_of other = None"

fun state_of :: "('r, 's) outcome \<Rightarrow> 's option" where
  "state_of (Done r s) = Some s"
| "state_of (Blocked s) = Some s"
| "state_of other = None"

text \<open>
  The calls on the interface that belong to bit \<open>i\<close> of a shift of \<open>scan_size\<close> bits,
  stated from the buffer as it is before the shift: TCK low with TMS and TDI set,
  the sample of TDO where the direction has input, then TCK high. \<open>r\<close> is the number
  of \<^verbatim>\<open>read()\<close> calls made before the shift.
\<close>

definition shift_bit_events :: "bitbang_interface \<Rightarrow> scan_type \<Rightarrow> int \<Rightarrow> u8 list \<Rightarrow> nat \<Rightarrow> nat
    \<Rightarrow> pin_event list" where
  "shift_bit_events ifc type scan_size buffer r i =
     (let tms = (int i = scan_size - 1);
          tdi = (type \<noteq> SCAN_IN \<and> get_bit buffer i)
      in [Write False tms tdi]
         @ (if type \<noteq> SCAN_OUT then [Sample (iface_read ifc (r + i))] else [])
         @ [Write True tms tdi])"

text \<open>
  Bit \<open>j\<close> of the buffer after the bits \<open>a..<b\<close> were shifted: the sample taken for
  \<open>j\<close> where the direction has input and \<open>j\<close> was shifted, the old bit otherwise.
\<close>

definition shifted_in :: "bitbang_interface \<Rightarrow> scan_type \<Rightarrow> nat \<Rightarrow> nat \<Rightarrow> nat \<Rightarrow> u8 list \<Rightarrow> nat \<Rightarrow> bool" where
  "shifted_in ifc type r a b buffer j =
     (if type \<noteq> SCAN_OUT \<and> a \<le> j \<and> j < b then iface_read ifc (r + j) \<noteq> 0 else get_bit buffer j)"

text \<open>
  The wire format in the words of the protocol: a number below 256 as two ASCII
  hexadecimal digits, the high one first, padded with a zero.
\<close>

definition hex_digit :: "nat \<Rightarrow> u8" where
  "hex_digit d = of_char (''0123456789ABCDEF'' ! d)"

definition hex2 :: "nat \<Rightarrow> u8 list" where
  "hex2 n = [hex_digit (n div 16), hex_digit (n mod 16)]"

section \<open>A sample TAP oracle\<close>

text \<open>
  The state table of IEEE 1149.1 and the short TMS paths between the six stable
  states, as an instance of \<open>tap_oracle\<close> to run the driver on. A path is read from
  bit 0 upwards.
\<close>

fun ieee_transition :: "tap_state \<Rightarrow> bool \<Rightarrow> tap_state" where
  "ieee_transition TAP_RESET tms = (if tms then TAP_RESET else TAP_IDLE)"
| "ieee_transition TAP_IDLE tms = (if tms then TAP_DRSELECT else TAP_IDLE)"
| "ieee_transition TAP_DRSELECT tms = (if tms then TAP_IRSELECT else TAP_DRCAPTURE)"
| "ieee_transition TAP_DRCAPTURE tms = (if tms then TAP_DREXIT1 else TAP_DRSHIFT)"
| "ieee_transition TAP_DRSHIFT tms = (if tms then TAP_DREXIT1 else TAP_DRSHIFT)"
| "ieee_transition TAP_DREXIT1 tms = (if tms then TAP_DRUPDATE else TAP_DRPAUSE)"
| "ieee_transition TAP_DRPAUSE tms = (if tms then TAP_DREXIT2 else TAP_DRPAUSE)"
| "ieee_transition TAP_DREXIT2 tms = (if tms then TAP_DRUPDATE else TAP_DRSHIFT)"
| "ieee_transition TAP_DRUPDATE tms = (if tms then TAP_DRSELECT else TAP_IDLE)"
| "ieee_transition TAP_IRSELECT tms = (if tms then TAP_RESET else TAP_IRCAPTURE)"
| "ieee_transition TAP_IRCAPTURE tms = (if tms then TAP_IREXIT1 else TAP_IRSHIFT)"
| "ieee_transition TAP_IRSHIFT tms = (if tms then TAP_IREXIT1 else TAP_IRSHIFT)"
| "ieee_transition TAP_IREXIT1 tms = (if tms then TAP_IRUPDATE else TAP_IRPAUSE)"
| "ieee_transition TAP_IRPAUSE tms = (if tms then TAP_IREXIT2 else TAP_IRPAUSE)"
| "ieee_transition TAP_IREXIT2 tms = (if tms then TAP_IRUPDATE else TAP_IRSHIFT)"
| "ieee_transition TAP_IRUPDATE tms = (if tms then TAP_DRSELECT else TAP_IDLE)"

fun ieee_stable :: "tap_state \<Rightarrow> bool" where
  "ieee_stable TAP_RESET = True"
| "ieee_stable TAP_IDLE = True"
| "ieee_stable TAP_DRSHIFT = True"
| "ieee_stable TAP_DRPAUSE = True"
| "ieee_stable TAP_IRSHIFT = True"
| "ieee_stable TAP_IRPAUSE = True"
| "ieee_stable s = False"

definition short_paths :: "((tap_state \<times> tap_state) \<times> (u8 \<times> int)) list" where
  "short_paths =
     [((TAP_RESET, TAP_IDLE), (0x00, 1)), ((TAP_RESET, TAP_DRSHIFT), (0x02, 4)),
      ((TAP_RESET, TAP_DRPAUSE), (0x0A, 5)), ((TAP_RESET, TAP_IRSHIFT), (0x06, 5)),
      ((TAP_RESET, TAP_IRPAUSE), (0x16, 6)),
      ((TAP_IDLE, TAP_IDLE), (0x00, 1)), ((TAP_IDLE, TAP_DRSHIFT), (0x01, 3)),
      ((TAP_IDLE, TAP_DRPAUSE), (0x05, 4)), ((TAP_IDLE, TAP_IRSHIFT), (0x03, 4)),
      ((TAP_IDLE, TAP_IRPAUSE), (0x0B, 5)),
      ((TAP_DRSHIFT, TAP_IDLE), (0x03, 3)), ((TAP_DRSHIFT, TAP_DRSHIFT), (0x00, 1)),
      ((TAP_DRSHIFT, TAP_DRPAUSE), (0x01, 2)), ((TAP_DRSHIFT, TAP_IRSHIFT), (0x0F, 6)),
      ((TAP_DRSHIFT, TAP_IRPAUSE), (0x2F, 7)),
      ((TAP_DRPAUSE, TAP_IDLE), (0x03, 3)), ((TAP_DRPAUSE, TAP_DRSHIFT), (0x01, 2)),
      ((TAP_DRPAUSE, TAP_DRPAUSE), (0x00, 1)), ((TAP_DRPAUSE, TAP_IRSHIFT), (0x0F, 6)),
      ((TAP_DRPAUSE, TAP_IRPAUSE), (0x2F, 7)),
      ((TAP_IRSHIFT, TAP_IDLE), (0x03, 3)), ((TAP_IRSHIFT, TAP_DRSHIFT), (0x07, 5)),
      ((TAP_IRSHIFT, TAP_DRPAUSE), (0x17, 6)), ((TAP_IRSHIFT, TAP_IRSHIFT), (0x00, 1)),
      ((TAP_IRSHIFT, TAP_IRPAUSE), (0x01, 2)),
      ((TAP_IRPAUSE, TAP_IDLE), (0x03, 3)), ((TAP_IRPAUSE, TAP_DRSHIFT), (0x07, 5)),
      ((TAP_IRPAUSE, TAP_DRPAUSE), (0x17, 6)), ((TAP_IRPAUSE, TAP_IRSHIFT), (0x01, 2)),
      ((TAP_IRPAUSE, TAP_IRPAUSE), (0x00, 1))]"

text \<open>Seven clocks with TMS high reach the reset state from anywhere.\<close>

definition short_path :: "tap_state \<Rightarrow> tap_state \<Rightarrow> u8 \<times> int" where
  "short_path s t = (case map_of short_paths (s, t) of Some p \<Rightarrow> p | None \<Rightarrow> (0x7F, 7))"

definition sample_oracle :: tap_oracle where
  "sample_oracle =
     \<lparr>tap_is_state_stable = ieee_stable,
      tap_get_tms_path = (\<lambda>s t. fst (short_path s t)),
      tap_get_tms_path_len = (\<lambda>s t. snd (short_path s t)),
      tap_state_transition = ieee_transition\<rparr>"

text \<open>Following \<open>n\<close> bits of a path through the state table.\<close>

fun walk :: "tap_state \<Rightarrow> u8 \<Rightarrow> nat list \<Rightarrow> tap_state" where
  "walk s p [] = s"
| "walk s p (i # is) = walk (ieee_transition s (bit p i)) p is"

definition sample_state :: "tap_state \<Rightarrow> tap_state \<Rightarrow> jtag_state" where
  "sample_state a b = \<lparr>cur_state = a, end_state = b, pins = [], reads = 0, read_back = []\<rparr>"

text \<open>An interface without \<^verbatim>\<open>blink\<close> whose TDO reads 1 at every second sample.\<close>

definition sample_interface :: bitbang_interface where
  "sample_interface = \<lparr>iface_read = (\<lambda>k. if odd k then 1 else 0), iface_has_blink = False\<rparr>"

text \<open>A one-bit DR scan whose check by \<^verbatim>\<open>jtag_read_buffer\<close> fails.\<close>

definition failing_scan :: scan_command where
  "failing_scan =
     \<lparr>ir_scan = False, scan_end_state = TAP_IDLE, built_size = 1, built_buffer = [0x01],
      built_type = SCAN_IO, read_buffer_result = (\<lambda>b. ERROR_JTAG_QUEUE_FAILED)\<rparr>"

section \<open>Sample SWD traffic\<close>

text \<open>
  The command byte of a read of DP register 0 as the SWD core builds it (\<^verbatim>\<open>RnW\<close>,
  parity and start bit set; the driver adds the park bit).
\<close>

definition idcode_read :: u8 where "idcode_read = 0x25"


text \<open>The same with the acknowledgement FAULT and no data.\<close>

definition fault_stream :: "u8 list list" where
  "fault_stream = [[0x30, 0x30], [0x30, 0x38, 0x30, 0x30, 0x30, 0x30, 0x30, 0x30, 0x30, 0x30]]"

text \<open>The state a read leaves behind on that FAULT, with one more response pending.\<close>

definition after_fault :: swd_state where
  "after_fault =
     (swd_start [[0x30, 0x30]])
       \<lparr>tx := [0xF0, 0x30, 0x38, 0x30, 0x30, 0x30, 0x31, 0x41, 0x35, 0xE0,
               0xF1, 0x32, 0x36, 0x30, 0x30, 0x30, 0x35, 0xE1],
        local_buf := (replicate 1024 0)[0 := 0x08],
        queued_retval := 4, frame := 1\<rparr>"

section \<open>Wire traffic of register accesses that meet WAIT\<close>

text \<open>
  What the adapter sends, each response in one read. After every write-exchange one
  byte, here \<open>00\<close>. After the 38-bit read-exchange of a register read five bytes,
  with the acknowledgement in bits 1 to 3: WAIT in \<open>wait_reply\<close>; OK, the data 1 and
  its parity 1 in \<open>ok_reply\<close>; no acknowledgement at all (the three bits are 0) in
  \<open>none_reply\<close>. After the 5-bit read-exchange of a register write one byte with the
  acknowledgement OK, WAIT or FAULT.
\<close>

definition ack_reply :: "u8 list" where "ack_reply = [0x30, 0x30]"

definition wait_reply :: "u8 list" where
  "wait_reply = [0x30, 0x34, 0x30, 0x30, 0x30, 0x30, 0x30, 0x30, 0x30, 0x30]"

definition ok_reply :: "u8 list" where
  "ok_reply = [0x31, 0x32, 0x30, 0x30, 0x30, 0x30, 0x30, 0x30, 0x31, 0x30]"

definition none_reply :: "u8 list" where
  "none_reply = [0x30, 0x30, 0x30, 0x30, 0x30, 0x30, 0x30, 0x30, 0x30, 0x30]"

definition write_ok_reply :: "u8 list" where "write_ok_reply = [0x30, 0x32]"

definition write_wait_reply :: "u8 list" where "write_wait_reply = [0x30, 0x34]"

definition write_fault_reply :: "u8 list" where "write_fault_reply = [0x30, 0x38]"



text \<open>
  The responses to a register read that is answered WAIT and whose
  clear-sticky-errors write is answered FAULT; then either no acknowledgement to the
  next attempt, followed by the responses to one more register read; or WAIT and
  then OK to the next two attempts, with no responses to a clear-sticky-errors write
  in between.
\<close>

definition latching_stream :: "u8 list list" where
  "latching_stream = [ack_reply, wait_reply, ack_reply, write_fault_reply, ack_reply]"

definition cleared_latch_stream :: "u8 list list" where
  "cleared_latch_stream = latching_stream @ [ack_reply, none_reply, ack_reply, ok_reply]"


text \<open>
  What the driver is expected to send, in the wire format of the protocol. One
  attempt of a register read: the write-exchange of the eight command bits (the
  command with start and park bits set), release of the line, the read-exchange of
  38 bits, drive of the line.
\<close>

definition hex_bytes :: "u8 list \<Rightarrow> u8 list" where
  "hex_bytes bytes = concat (map (\<lambda>b. hex2 (unat b)) bytes)"

definition read_attempt_tx :: "u8 \<Rightarrow> u8 list" where
  "read_attempt_tx cmd =
     [0xF0] @ hex2 8 @ hex2 0 @ hex2 1 @ hex_bytes [cmd OR 0x81]
     @ [0xE0] @ [0xF1] @ hex2 38 @ hex2 0 @ hex2 5 @ [0xE1]"

text \<open>
  One attempt of a register write of \<open>v\<close>: the command, release of the line, the
  read-exchange of five bits, drive of the line, and the write-exchange of 33 bits
  at offset 5. Its five payload bytes are bits 0 to 39 of the array: bits 0 to 4
  are those of \<open>reply\<close>, the byte the adapter answered to the read-exchange; bits 5 to
  36 are \<open>v\<close>; bit 37 is its parity; bits 38 and 39 are never set by the driver and
  are those the array happened to hold, bits 6 and 7 of its byte 4, \<open>stale\<close>.
\<close>

definition write_data_bytes :: "u8 \<Rightarrow> u32 \<Rightarrow> u8 \<Rightarrow> u8 list" where
  "write_data_bytes reply v stale =
     [(reply AND 0x1F) OR push_bit 5 (ucast v),
      ucast (drop_bit 3 v), ucast (drop_bit 11 v), ucast (drop_bit 19 v),
      ucast (drop_bit 27 v) OR push_bit 5 (ucast (parity_u32 v)) OR (stale AND 0xC0)]"

definition write_attempt_tx :: "u8 \<Rightarrow> u32 \<Rightarrow> u8 \<Rightarrow> u8 \<Rightarrow> u8 list" where
  "write_attempt_tx cmd v reply stale =
     [0xF0] @ hex2 8 @ hex2 0 @ hex2 1 @ hex_bytes [cmd OR 0x81]
     @ [0xE0] @ [0xF1] @ hex2 5 @ hex2 0 @ hex2 1 @ [0xE1]
     @ [0xF0] @ hex2 33 @ hex2 5 @ hex2 5 @ hex_bytes (write_data_bytes reply v stale)"

text \<open>The clear-sticky-errors write: one attempt of a write of \<open>0x1E\<close> to DP address 0.\<close>

definition clear_write_tx :: "u8 \<Rightarrow> u8 \<Rightarrow> u8 list" where
  "clear_write_tx reply stale = write_attempt_tx abort_cmd sticky_clear_value reply stale"

text \<open>The delay exchange after a successful AP access, and its sleep.\<close>

definition ap_delay_tx :: "u8 \<Rightarrow> u32 \<Rightarrow> u8 list" where
  "ap_delay_tx cmd ap_delay_clk =
     (if cmd AND SWD_CMD_APnDP \<noteq> 0 then exchange_header 0xF1 ap_delay_clk 0 None else [])"

definition ap_delay_us :: "u8 \<Rightarrow> nat" where
  "ap_delay_us cmd = (if cmd AND SWD_CMD_APnDP \<noteq> 0 then 10000 else 0)"

text \<open>
  A process whose stack holds something else for every array: \<open>0x00\<close>, \<open>0x55\<close>,
  \<open>0xAA\<close>, \<open>0xFF\<close>, ... in every byte of the first, second, third, fourth, ...
  array declared.
\<close>

definition stale_stack :: "nat \<Rightarrow> nat \<Rightarrow> u8" where
  "stale_stack k i = of_nat (85 * k)"

definition stale_start :: "u8 list list \<Rightarrow> swd_state" where
  "stale_start incoming = (swd_start incoming)\<lparr>stack_byte := stale_stack\<rparr>"

text \<open>
  The command byte of a write of DP register 8 as the SWD core builds it (parity
  and start bit set).
\<close>

definition select_write :: u8 where "select_write = 0x31"

section \<open>The state move\<close>

lemma pins_fold_state_move:
  "snd (fold (state_move_step p) js (t, st)) =
     st\<lparr>pins := pins st @ concat (map (\<lambda>i. pulse (bit p i) False) js)\<rparr>"
  by (induction js arbitrary: t st)
     (simp_all add: state_move_step_def iface_write_def pulse_def Let_def)

lemma tck_pulses_pulse [simp]: "tck_pulses lvl (pulse tms tdi @ es) = Suc (tck_pulses True es)"
  by (simp add: pulse_def)

lemma tck_pulses_pulses:
  "tck_pulses lvl (concat (map (\<lambda>i. pulse (f i) tdi) js) @ es)
     = length js + tck_pulses (js \<noteq> [] \<or> lvl) es"
  by (induction js arbitrary: lvl) simp_all

lemma list_all_tdi_low_pulses:
  "list_all tdi_low (concat (map (\<lambda>i. pulse (f i) False) js))"
  by (induction js) (simp_all add: pulse_def)

lemma issued_state_move:
  "issued st (bitbang_state_move orc skip st) =
     concat (map (\<lambda>i. pulse (bit (tap_get_tms_path orc (cur_state st) (end_state st)) i) False)
        [skip..<nat (tap_get_tms_path_len orc (cur_state st) (end_state st))])
     @ [Write False
          (fst (fold (state_move_step (tap_get_tms_path orc (cur_state st) (end_state st)))
             [skip..<nat (tap_get_tms_path_len orc (cur_state st) (end_state st))] (False, st)))
          False]"
  by (simp add: issued_def bitbang_state_move_def Let_def case_prod_unfold
      pins_fold_state_move iface_write_def CLOCK_IDLE_def)

lemma cur_state_state_move:
  "cur_state (bitbang_state_move orc skip st) = end_state st"
  by (simp add: bitbang_state_move_def Let_def case_prod_unfold
      pins_fold_state_move iface_write_def)

lemma pins_state_move:
  "pins (bitbang_state_move orc skip st) = pins st @ issued st (bitbang_state_move orc skip st)"
  by (simp add: issued_def bitbang_state_move_def Let_def case_prod_unfold
      pins_fold_state_move iface_write_def)

text \<open>
  Claim C8. \<^verbatim>\<open>bitbang_state_move(0)\<close> from current state \<open>A\<close> with end state \<open>B\<close> only
  appends to the pin trace; what it appends holds exactly as many TCK pulses as
  the oracle reports for the path from \<open>A\<close> to \<open>B\<close> (whatever the level of TCK
  before), every write in it has TDI at 0, its last write leaves TCK low, and the
  current state is \<open>B\<close> afterwards. The function does not look at whether \<open>A\<close> and
  \<open>B\<close> are stable, so this holds for every pair, the stable ones among them. The
  reported length is a C \<^verbatim>\<open>int\<close>; it is a length when it is not negative.
\<close>

theorem state_move_pulses:
  assumes "0 \<le> tap_get_tms_path_len orc (cur_state st) (end_state st)"
  shows "pins (bitbang_state_move orc 0 st) = pins st @ issued st (bitbang_state_move orc 0 st)
    \<and> int (tck_pulses lvl (issued st (bitbang_state_move orc 0 st)))
        = tap_get_tms_path_len orc (cur_state st) (end_state st)
    \<and> list_all tdi_low (issued st (bitbang_state_move orc 0 st))
    \<and> tck_low (last (issued st (bitbang_state_move orc 0 st)))
    \<and> cur_state (bitbang_state_move orc 0 st) = end_state st"
proof -
  have "int (tck_pulses lvl (issued st (bitbang_state_move orc 0 st)))
        = tap_get_tms_path_len orc (cur_state st) (end_state st)"
    using assms by (simp add: issued_state_move tck_pulses_pulses)
  moreover have "list_all tdi_low (issued st (bitbang_state_move orc 0 st))"
    by (simp add: issued_state_move list_all_tdi_low_pulses)
  moreover have "tck_low (last (issued st (bitbang_state_move orc 0 st)))"
    by (simp add: issued_state_move)
  ultimately show ?thesis
    using pins_state_move [of orc 0 st] cur_state_state_move [of orc 0 st] by blast
qed

text \<open>From Run-Test/Idle to Shift-DR: the path 1, 0, 0 of three pulses.\<close>

theorem state_move_pulses_witness:
  "0 \<le> tap_get_tms_path_len sample_oracle TAP_IDLE TAP_DRSHIFT
   \<and> issued (sample_state TAP_IDLE TAP_DRSHIFT)
        (bitbang_state_move sample_oracle 0 (sample_state TAP_IDLE TAP_DRSHIFT))
      = [Write False True False, Write True True False,
         Write False False False, Write True False False,
         Write False False False, Write True False False,
         Write False False False]
   \<and> tck_pulses False (issued (sample_state TAP_IDLE TAP_DRSHIFT)
        (bitbang_state_move sample_oracle 0 (sample_state TAP_IDLE TAP_DRSHIFT))) = 3
   \<and> cur_state (bitbang_state_move sample_oracle 0 (sample_state TAP_IDLE TAP_DRSHIFT)) = TAP_DRSHIFT"
  using state_move_pulses [of sample_oracle "sample_state TAP_IDLE TAP_DRSHIFT" False]
  by (simp add: sample_oracle_def short_path_def short_paths_def sample_state_def
      bitbang_state_move_def state_move_step_def iface_write_def issued_def CLOCK_IDLE_def upt_rec)

section \<open>The shift loop\<close>

lemma div_mod_eq_iff: "(j::nat) = i \<longleftrightarrow> j div 8 = i div 8 \<and> j mod 8 = i mod 8"
  by (metis div_mult_mod_eq)

lemma get_bit_set:
  "i div 8 < length buf \<Longrightarrow>
   get_bit (buf[i div 8 := (buf ! (i div 8)) OR 2 ^ (i mod 8)]) j = (j = i \<or> get_bit buf j)"
  unfolding get_bit_def
  by (cases "j div 8 = i div 8")
     (auto simp add: bit_or_iff bit_exp_iff div_mod_eq_iff [of j i])

lemma get_bit_clear:
  "i div 8 < length buf \<Longrightarrow>
   get_bit (buf[i div 8 := (buf ! (i div 8)) AND NOT (2 ^ (i mod 8))]) j = (j \<noteq> i \<and> get_bit buf j)"
  unfolding get_bit_def
  by (cases "j div 8 = i div 8")
     (auto simp add: bit_and_iff bit_not_iff bit_exp_iff div_mod_eq_iff [of j i])

lemma test_bit_mask: "(w AND 2 ^ (i mod 8) \<noteq> 0) = bit (w::u8) (i mod 8)"
  by (simp add: and_exp_eq_0_iff_not_bit)

lemma scan_loop_step:
  assumes "a div 8 < length buf" and "ty \<noteq> SCAN_OUT \<longrightarrow> reads st = r0 + a"
  shows "\<exists>buf1 st1. scan_loop ifc ty n (a # rest) buf st = scan_loop ifc ty n rest buf1 st1
     \<and> length buf1 = length buf
     \<and> pins st1 = pins st @ shift_bit_events ifc ty n buf r0 a
     \<and> reads st1 = (if ty \<noteq> SCAN_OUT then r0 + Suc a else reads st)
     \<and> cur_state st1 = cur_state st \<and> end_state st1 = end_state st \<and> read_back st1 = read_back st
     \<and> (\<forall>j. get_bit buf1 j = shifted_in ifc ty r0 a (Suc a) buf j)"
proof (cases "ty = SCAN_OUT")
  case True
  then show ?thesis using assms
    apply (simp add: Let_def iface_write_def test_bit_mask)
    apply (rule exI, rule exI, rule conjI, rule refl)
    apply (simp add: Let_def shift_bit_events_def shifted_in_def get_bit_def [of buf a])
    done
next
  case False
  have j: "(a \<le> j \<and> j < Suc a) = (j = a)" for j by auto
  show ?thesis
  proof (cases "iface_read ifc (r0 + a) = 0")
    case True
    with False assms show ?thesis
      apply (simp add: Let_def iface_write_def iface_sample_def test_bit_mask)
      apply (rule exI, rule exI, rule conjI, rule refl)
      apply (simp add: Let_def shift_bit_events_def shifted_in_def get_bit_def [of buf a] get_bit_clear j)
      done
  next
    case nz: False
    with False assms show ?thesis
      apply (simp add: Let_def iface_write_def iface_sample_def test_bit_mask)
      apply (rule exI, rule exI, rule conjI, rule refl)
      apply (simp add: Let_def shift_bit_events_def shifted_in_def get_bit_def [of buf a] get_bit_set j)
      done
  qed
qed

lemma scan_loop_upt:
  "b \<le> 8 * length buf \<Longrightarrow> ty \<noteq> SCAN_OUT \<longrightarrow> reads st = r0 + a \<Longrightarrow>
   \<exists>buf' st'. scan_loop ifc ty n [a..<b] buf st = Done buf' st'
     \<and> length buf' = length buf
     \<and> pins st' = pins st @ concat (map (shift_bit_events ifc ty n buf r0) [a..<b])
     \<and> reads st' = (if ty \<noteq> SCAN_OUT then r0 + max a b else reads st)
     \<and> cur_state st' = cur_state st \<and> end_state st' = end_state st \<and> read_back st' = read_back st
     \<and> (\<forall>j. get_bit buf' j = shifted_in ifc ty r0 a b buf j)"
proof (induction "b - a" arbitrary: a buf st)
  case 0
  then show ?case by (auto simp add: shifted_in_def max_def)
next
  case (Suc k)
  then have ab: "a < b" and k: "k = b - Suc a" by simp_all
  then have upt: "[a..<b] = a # [Suc a..<b]" by (simp add: upt_rec)
  have inb: "a div 8 < length buf"
    using Suc.prems ab by (simp add: less_mult_imp_div_less mult.commute)
  from scan_loop_step [OF inb Suc.prems(2), of ifc n "[Suc a..<b]"]
  obtain buf1 st1
    where step: "scan_loop ifc ty n (a # [Suc a..<b]) buf st = scan_loop ifc ty n [Suc a..<b] buf1 st1"
      and len1: "length buf1 = length buf"
      and pins1: "pins st1 = pins st @ shift_bit_events ifc ty n buf r0 a"
      and reads1: "reads st1 = (if ty \<noteq> SCAN_OUT then r0 + Suc a else reads st)"
      and rest1: "cur_state st1 = cur_state st" "end_state st1 = end_state st"
                 "read_back st1 = read_back st"
      and bits1: "\<forall>j. get_bit buf1 j = shifted_in ifc ty r0 a (Suc a) buf j"
    by blast
  have "b \<le> 8 * length buf1" using Suc.prems len1 by simp
  moreover have "ty \<noteq> SCAN_OUT \<longrightarrow> reads st1 = r0 + Suc a" using reads1 by simp
  ultimately obtain buf' st'
    where run: "scan_loop ifc ty n [Suc a..<b] buf1 st1 = Done buf' st'"
      and len': "length buf' = length buf1"
      and pins': "pins st' = pins st1 @ concat (map (shift_bit_events ifc ty n buf1 r0) [Suc a..<b])"
      and reads': "reads st' = (if ty \<noteq> SCAN_OUT then r0 + max (Suc a) b else reads st1)"
      and rest': "cur_state st' = cur_state st1" "end_state st' = end_state st1"
                 "read_back st' = read_back st1"
      and bits': "\<forall>j. get_bit buf' j = shifted_in ifc ty r0 (Suc a) b buf1 j"
    using Suc.hyps(1) [OF k, of buf1 st1] by blast
  have same: "shift_bit_events ifc ty n buf1 r0 i = shift_bit_events ifc ty n buf r0 i"
    if "Suc a \<le> i" for i
    using that bits1 by (simp add: shift_bit_events_def shifted_in_def)
  have ev: "map (shift_bit_events ifc ty n buf1 r0) [Suc a..<b]
              = map (shift_bit_events ifc ty n buf r0) [Suc a..<b]"
    by (rule map_cong) (simp_all add: same)
  have bits: "\<forall>j. get_bit buf' j = shifted_in ifc ty r0 a b buf j"
    using bits' bits1 ab by (auto simp add: shifted_in_def)
  have eq: "scan_loop ifc ty n [a..<b] buf st = Done buf' st'"
    unfolding upt step by (rule run)
  show ?case
    apply (rule exI [of _ buf'], rule exI [of _ st'], rule conjI, rule eq)
    using len' len1 pins' pins1 reads' reads1 rest' rest1 bits ab
    apply (simp add: ev max_def upt_rec [of a b])
    done
qed

text \<open>
  Claim C5, as the code has it. The shift loop of \<^verbatim>\<open>bitbang_scan\<close> over a buffer that
  holds the \<open>scan_size\<close> bits returns, and for every bit index \<open>i\<close> below \<open>scan_size\<close>,
  in order, it makes the calls of \<open>shift_bit_events\<close>: TMS is 1 exactly at the last
  index; TDI is bit \<open>i\<close> of the buffer as it was before the shift, unless the scan is
  input-only (\<^verbatim>\<open>SCAN_IN\<close>), where 0 is driven; where the direction has input (any
  type but \<^verbatim>\<open>SCAN_OUT\<close>), TDO is sampled after the write that sets TCK low and
  before the write that sets TCK high. Afterwards bit \<open>i\<close> of the buffer is that
  sample (where the direction has input), and every other bit is as before.
\<close>

theorem scan_loop_bits:
  assumes "nat scan_size \<le> 8 * length buffer"
  shows "\<exists>buffer' st'.
      scan_loop ifc type scan_size [0..<nat scan_size] buffer st = Done buffer' st'
    \<and> issued st st' = concat (map (shift_bit_events ifc type scan_size buffer (reads st)) [0..<nat scan_size])
    \<and> length buffer' = length buffer
    \<and> (\<forall>j. get_bit buffer' j = shifted_in ifc type (reads st) 0 (nat scan_size) buffer j)"
proof -
  from scan_loop_upt [OF assms, of type st "reads st" 0 ifc scan_size]
  obtain buffer' st'
    where "scan_loop ifc type scan_size [0..<nat scan_size] buffer st = Done buffer' st'"
      and "length buffer' = length buffer"
      and "pins st' = pins st
             @ concat (map (shift_bit_events ifc type scan_size buffer (reads st)) [0..<nat scan_size])"
      and "\<forall>j. get_bit buffer' j = shifted_in ifc type (reads st) 0 (nat scan_size) buffer j"
    by auto
  then show ?thesis by (auto simp add: issued_def)
qed

text \<open>
  A full-duplex scan of three bits \<open>1, 0, 1\<close> (the byte 5) while TDO reads
  \<open>0, 1, 0\<close>: TDI follows the buffer, TMS rises on the third bit, and the buffer
  holds the samples (the byte 2) afterwards.
\<close>

theorem scan_loop_bits_witness:
  "nat 3 \<le> 8 * length [0x05 :: u8]
   \<and> scan_loop sample_interface SCAN_IO 3 [0..<nat 3] [0x05] (sample_state TAP_DRSHIFT TAP_IDLE)
     = Done [0x02]
         \<lparr>cur_state = TAP_DRSHIFT, end_state = TAP_IDLE,
          pins = [Write False False True, Sample 0, Write True False True,
                  Write False False False, Sample 1, Write True False False,
                  Write False True True, Sample 0, Write True True True],
          reads = 3, read_back = []\<rparr>"
  using scan_loop_bits [of 3 "[0x05]" sample_interface SCAN_IO "sample_state TAP_DRSHIFT TAP_IDLE"]
  by (simp add: sample_interface_def sample_state_def iface_write_def iface_sample_def upt_rec)

text \<open>
  Claim C5 as it is written fails at an output-only scan: \<^verbatim>\<open>bitbang_scan\<close> of the one
  bit 1 with type \<^verbatim>\<open>SCAN_OUT\<close>, from Shift-DR with end state Run-Test/Idle, drives
  TDI at 1 in the bit's two writes, not at 0 (the two pulses after them are the move
  to the end state).
\<close>

theorem scan_out_drives_buffer_bit:
  "bitbang_scan sample_oracle sample_interface False SCAN_OUT [0x01] 1 (sample_state TAP_DRSHIFT TAP_IDLE)
     = Done [0x01]
         \<lparr>cur_state = TAP_IDLE, end_state = TAP_IDLE,
          pins = [Write False True True, Write True True True,
                  Write False True False, Write True True False,
                  Write False False False, Write True False False,
                  Write False False False],
          reads = 0, read_back = []\<rparr>"
  by (simp add: bitbang_scan_def bitbang_state_move_def state_move_step_def sample_state_def
      sample_oracle_def short_path_def short_paths_def iface_write_def CLOCK_IDLE_def upt_rec)

section \<open>The queue executor\<close>

text \<open>
  Claim C1 at a queue the executor can receive: a DR scan whose check by
  \<^verbatim>\<open>jtag_read_buffer\<close> fails, followed by a \<^verbatim>\<open>JTAG_TMS\<close> command. The scan alone makes
  the executor return \<^verbatim>\<open>ERROR_JTAG_QUEUE_FAILED\<close>; with the \<^verbatim>\<open>JTAG_TMS\<close> command after
  it the executor returns \<^verbatim>\<open>ERROR_OK\<close>, because that case assigns the status of
  \<^verbatim>\<open>bitbang_execute_tms\<close> to \<^verbatim>\<open>retval\<close>.
\<close>

theorem tms_after_failed_scan_returns_ok:
  "retval_of (bitbang_execute_queue sample_oracle (Some sample_interface) False
      [JTAG_SCAN failing_scan] (sample_state TAP_IDLE TAP_IDLE)) = Some ERROR_JTAG_QUEUE_FAILED
   \<and> retval_of (bitbang_execute_queue sample_oracle (Some sample_interface) False
      [JTAG_SCAN failing_scan, JTAG_TMS 1 [0x00]] (sample_state TAP_IDLE TAP_IDLE)) = Some ERROR_OK
   \<and> read_buffer_result failing_scan [0x00] \<noteq> ERROR_OK
   \<and> ERROR_JTAG_QUEUE_FAILED \<noteq> ERROR_OK"
  by (simp add: bitbang_execute_queue_def bitbang_scan_def bitbang_state_move_def
      bitbang_end_state_def bitbang_execute_tms_def blink_def failing_scan_def
      state_move_step_def sample_state_def sample_interface_def
      sample_oracle_def short_path_def short_paths_def iface_write_def iface_sample_def
      CLOCK_IDLE_def ERROR_OK_def ERROR_JTAG_QUEUE_FAILED_def upt_rec)

section \<open>The serial transport\<close>

lemma nibble_cases: "\<forall>n\<in>{..<16::nat}.
   (if (of_nat n :: u32) > 9 then ucast ((of_nat n :: u32) - 10 + 0x41) else ucast ((of_nat n::u32) + 0x30)) = hex_digit n"
  by (simp add: lessThan_nat_numeral lessThan_Suc hex_digit_def)

lemma unat_low_nibble: "unat ((x::u32) AND 0x0F) = unat x mod 16"
proof -
  have "x AND 0x0F = take_bit 4 x" by (simp add: take_bit_eq_mask mask_eq_exp_minus_1)
  then show ?thesis by (simp add: unsigned_take_bit_eq take_bit_eq_mod unat_mod_distrib)
qed

lemma unat_high_nibble: "unat (drop_bit 4 (x::u32) AND 0x0F) = (unat x div 16) mod 16"
  by (simp add: unat_low_nibble unat_drop_bit_eq drop_bit_eq_div unat_div_distrib)

lemma nibble_hex:
  assumes "unat (d::u32) < 16"
  shows "(if d > 9 then ucast (d - 10 + 0x41) else ucast (d + 0x30)) = hex_digit (unat d)"
proof -
  have "unat d \<in> {..<16}" using assms by simp
  from bspec [OF nibble_cases this] show ?thesis by (simp cong: if_cong)
qed

lemma GET_LOWER_HEX_digit: "GET_LOWER_HEX x = hex_digit (unat x mod 16)"
  unfolding GET_LOWER_HEX_def using nibble_hex [of "x AND 0x0F"]
  by (simp add: unat_low_nibble)

lemma GET_UPPER_HEX_digit: "GET_UPPER_HEX x = hex_digit (unat x div 16 mod 16)"
  unfolding GET_UPPER_HEX_def using nibble_hex [of "drop_bit 4 x AND 0x0F"]
  by (simp add: unat_high_nibble)

lemma hex_pair: "unat x < 256 \<Longrightarrow> [GET_UPPER_HEX x, GET_LOWER_HEX x] = hex2 (unat x)"
  by (simp add: GET_UPPER_HEX_digit GET_LOWER_HEX_digit hex2_def)

lemma rx_char_count: "rx_char c acc = Some acc' \<Longrightarrow> fst acc' = Suc (fst acc) \<and> length (snd acc') = length (snd acc)"
  by (auto simp add: rx_char_def Let_def split: if_splits)

lemma rx_chunk_count:
  "rx_chunk cs acc = Some acc' \<Longrightarrow> fst acc' = fst acc + length cs \<and> length (snd acc') = length (snd acc)"
proof (induction cs arbitrary: acc)
  case Nil
  then show ?case by simp
next
  case (Cons c cs)
  then show ?case by (auto split: option.splits dest!: rx_char_count)
qed

lemma response_loop_state:
  "state_of (response_loop target chunks data_cnt st) = Some st' \<Longrightarrow>
     tx st' = tx st \<and> slept st' = slept st \<and> queued_retval st' = queued_retval st
     \<and> swd_mode st' = swd_mode st \<and> fd st' = fd st \<and> stack_byte st' = stack_byte st
     \<and> frame st' = frame st \<and> length (local_buf st') = length (local_buf st)"
proof (induction chunks arbitrary: data_cnt st)
  case Nil
  then show ?case by (cases "data_cnt div 2 = target") auto
next
  case (Cons chunk rest)
  show ?case
  proof (cases "rx_chunk chunk (data_cnt, local_buf st)")
    case None
    with Cons.prems show ?thesis by simp
  next
    case (Some acc)
    obtain cnt buf where acc: "acc = (cnt, buf)" by (cases acc)
    from rx_chunk_count [OF Some] acc have len: "length buf = length (local_buf st)" by simp
    show ?thesis
    proof (cases "cnt div 2 = target")
      case True
      with Cons.prems Some acc len show ?thesis by (auto simp add: Let_def)
    next
      case False
      with Cons.prems Some acc
      have "state_of (response_loop target rest cnt (st\<lparr>rx := rest, local_buf := buf\<rparr>)) = Some st'"
        by (simp add: Let_def)
      from Cons.IH [OF this] len show ?thesis by simp
    qed
  qed
qed


lemma data_len_small:
  assumes "unat (b::u32) < 256" and "unat (off::u32) < 256"
  shows "unat (DIV_ROUND_UP (b + off) 8) = (unat b + unat off + 7) div 8"
proof -
  have "unat (b + off + 8 - 1) = unat b + unat off + 7"
    using assms by (simp add: unat_word_ariths)
  then show ?thesis by (simp add: DIV_ROUND_UP_def unat_div_distrib)
qed

lemma copy_bits_bits:
  "copy_bits src js buf = Some buf' \<Longrightarrow>
     length buf' = length buf
     \<and> (\<forall>j. get_bit buf' j = (if j \<in> set js then get_bit src j else get_bit buf j))"
proof (induction js arbitrary: buf)
  case Nil
  then show ?case by simp
next
  case (Cons i js)
  let ?buf1 = "if (src ! (i div 8)) AND 2 ^ (i mod 8) \<noteq> 0
               then buf[i div 8 := (buf ! (i div 8)) OR 2 ^ (i mod 8)]
               else buf[i div 8 := (buf ! (i div 8)) AND NOT (2 ^ (i mod 8))]"
  from Cons.prems have inb: "i div 8 < length buf" and run: "copy_bits src js ?buf1 = Some buf'"
    by (simp_all add: Let_def split: if_splits)
  have one: "get_bit ?buf1 j = (if j = i then get_bit src i else get_bit buf j)" for j
    using inb by (simp add: test_bit_mask get_bit_set get_bit_clear get_bit_def [of src i])
  from Cons.IH [OF run] one show ?case by auto
qed

lemma and_then_Done:
  "and_then m f = Done r s \<longleftrightarrow> (\<exists>r1 s1. m = Done r1 s1 \<and> f r1 s1 = Done r s)"
  by (cases m) simp_all

lemma unat_sum_le: "unat ((b::u32) + off) \<le> unat off + unat b"
proof -
  have "unat (b + off) = (unat b + unat off) mod 2 ^ 32" by (simp add: unat_word_ariths)
  also have "\<dots> \<le> unat b + unat off" by (rule mod_less_eq_dividend)
  finally show ?thesis by simp
qed

text \<open>
  Claim C10. A read-exchange with a capture buffer that returns hands back a buffer
  of the same length in which every bit with an index outside
  \<open>[offset, offset + bit_cnt)\<close> is as it was before the call; the bits the copy loop
  visits are those of \<^verbatim>\<open>local_buf\<close>, the assembled response.
\<close>

theorem read_exchange_frame:
  assumes "bitbang_exchange True (Some buf) offset bit_cnt st = Done r st'"
  shows "\<exists>buf'. r = Some buf' \<and> length buf' = length buf
     \<and> (\<forall>j. \<not> (unat offset \<le> j \<and> j < unat offset + unat bit_cnt) \<longrightarrow> get_bit buf' j = get_bit buf j)
     \<and> (\<forall>j. unat offset \<le> j \<and> j < unat (bit_cnt + offset) \<longrightarrow> get_bit buf' j = get_bit (local_buf st') j)"
proof -
  from assms obtain cnt st2
    where fin: "(case copy_bits (local_buf st2) [unat offset..<unat (bit_cnt + offset)] buf of
              None \<Rightarrow> Undefined | Some b' \<Rightarrow> Done (Some b') st2) = Done r st'"
    by (simp add: bitbang_exchange_def Let_def and_then_Done) blast
  then obtain buf'
    where cp: "copy_bits (local_buf st2) [unat offset..<unat (bit_cnt + offset)] buf = Some buf'"
      and r: "r = Some buf'" and st': "st' = st2"
    by (cases "copy_bits (local_buf st2) [unat offset..<unat (bit_cnt + offset)] buf") simp_all
  note le = unat_sum_le [of bit_cnt offset]
  from copy_bits_bits [OF cp]
  have len: "length buf' = length buf"
    and bits: "\<And>j. get_bit buf' j
        = (if unat offset \<le> j \<and> j < unat (bit_cnt + offset) then get_bit (local_buf st2) j else get_bit buf j)"
    by simp_all
  have out: "get_bit buf' j = get_bit buf j" if "\<not> (unat offset \<le> j \<and> j < unat offset + unat bit_cnt)" for j
  proof -
    from that le have "\<not> (unat offset \<le> j \<and> j < unat (bit_cnt + offset))" by linarith
    then show ?thesis unfolding bits by (rule if_not_P)
  qed
  have ins: "get_bit buf' j = get_bit (local_buf st') j" if "unat offset \<le> j \<and> j < unat (bit_cnt + offset)" for j
    using that by (simp add: bits st')
  from r len out ins show ?thesis by blast
qed

text \<open>
  A read of bits 2, 3 and 4 into the byte \<open>0xFB\<close> while the adapter answers \<open>04\<close>:
  bit 2 is set, bits 3 and 4 are cleared, the five other bits stay.
\<close>

theorem read_exchange_frame_witness:
  "bitbang_exchange True (Some [0xFB]) 2 3 (swd_start [[0x30, 0x34]])
     = Done (Some [0xE7])
         ((swd_start [])\<lparr>tx := [0xF1, 0x30, 0x33, 0x30, 0x32, 0x30, 0x31],
                          local_buf := (replicate 1024 0)[0 := 0x04]\<rparr>)
   \<and> get_bit [0xE7] 0 = get_bit [0xFB] 0 \<and> get_bit [0xE7] 1 = get_bit [0xFB] 1
   \<and> get_bit [0xE7] 5 = get_bit [0xFB] 5 \<and> get_bit [0xE7] 6 = get_bit [0xFB] 6
   \<and> get_bit [0xE7] 7 = get_bit [0xFB] 7"
  using read_exchange_frame [of "[0xFB]" 2 3 "swd_start [[0x30, 0x34]]"]
  by (simp add: swd_start_def bitbang_exchange_def DIV_ROUND_UP_def
      exchange_header_def GET_UPPER_HEX_def GET_LOWER_HEX_def fd_write_def
      rx_char_def HEX_TO_INT_def upt_rec get_bit_def)

lemma state_of_and_then:
  "state_of (and_then m f) = Some s' \<Longrightarrow>
     m = Blocked s' \<or> (\<exists>r1 s1. m = Done r1 s1 \<and> state_of (f r1 s1) = Some s')"
  by (cases m) simp_all

lemma exchange_header_hex:
  assumes "unat bit_cnt < 256" and "unat offset < 256"
  shows "exchange_header opcode bit_cnt offset None
           = [opcode] @ hex2 (unat bit_cnt) @ hex2 (unat offset) @ [0x30, 0x30]"
    and "n < 256 \<Longrightarrow> exchange_header opcode bit_cnt offset (Some n)
           = [opcode] @ hex2 (unat bit_cnt) @ hex2 (unat offset) @ hex2 n"
proof -
  show "exchange_header opcode bit_cnt offset None
           = [opcode] @ hex2 (unat bit_cnt) @ hex2 (unat offset) @ [0x30, 0x30]"
    using hex_pair [OF assms(1)] hex_pair [OF assms(2)] by (simp add: exchange_header_def)
next
  assume n: "n < 256"
  then have "unat (of_nat n :: u32) = n" by (simp add: unat_of_nat)
  with n hex_pair [of "of_nat n :: u32"]
  have "[GET_UPPER_HEX (of_nat n), GET_LOWER_HEX (of_nat n)] = hex2 n" by simp
  then show "exchange_header opcode bit_cnt offset (Some n)
           = [opcode] @ hex2 (unat bit_cnt) @ hex2 (unat offset) @ hex2 n"
    using hex_pair [OF assms(1)] hex_pair [OF assms(2)] by (simp add: exchange_header_def)
qed

text \<open>
  Claim C6. For a bit count and a bit offset that fit two hexadecimal digits: a
  read-exchange with a capture buffer writes to the stream exactly \<open>0xF1\<close>, the two
  digits of the bit count, the two digits of the offset and the two digits of the
  payload byte length (the bytes that hold bits \<open>0\<close> to \<open>offset + bit_cnt\<close>),
  whether the call returns or waits for ever for the response; with no capture
  buffer the length field is \<open>00\<close>, the call sleeps for the fixed 10000 microseconds
  and returns, and nothing is read (\<open>rx\<close> and \<open>local_buf\<close> are as before).
\<close>

theorem read_exchange_header:
  assumes "unat bit_cnt < 256" and "unat offset < 256"
  shows "(\<forall>st'. state_of (bitbang_exchange True (Some buf) offset bit_cnt st) = Some st' \<longrightarrow>
            tx st' = tx st @ [0xF1] @ hex2 (unat bit_cnt) @ hex2 (unat offset)
                       @ hex2 ((unat bit_cnt + unat offset + 7) div 8))
       \<and> bitbang_exchange True None offset bit_cnt st
           = Done None (st\<lparr>tx := tx st @ [0xF1] @ hex2 (unat bit_cnt) @ hex2 (unat offset) @ [0x30, 0x30],
                          slept := slept st + 10000\<rparr>)"
proof (intro conjI allI impI)
  show "bitbang_exchange True None offset bit_cnt st
           = Done None (st\<lparr>tx := tx st @ [0xF1] @ hex2 (unat bit_cnt) @ hex2 (unat offset) @ [0x30, 0x30],
                          slept := slept st + 10000\<rparr>)"
    by (simp add: bitbang_exchange_def fd_write_def usleep_def exchange_header_hex(1) [OF assms])
next
  fix st'
  let ?n = "(unat bit_cnt + unat offset + 7) div 8"
  let ?st1 = "fd_write (exchange_header 0xF1 bit_cnt offset (Some ?n)) st"
  assume "state_of (bitbang_exchange True (Some buf) offset bit_cnt st) = Some st'"
  then have "state_of (and_then (response_loop ?n (rx ?st1) 0 ?st1)
                (\<lambda>data_cnt st2.
                   case copy_bits (local_buf st2) [unat offset..<unat (bit_cnt + offset)] buf of
                     None \<Rightarrow> Undefined | Some b' \<Rightarrow> Done (Some b') st2)) = Some st'"
    by (simp add: bitbang_exchange_def Let_def data_len_small [OF assms])
  from state_of_and_then [OF this]
  have "state_of (response_loop ?n (rx ?st1) 0 ?st1) = Some st'"
  proof
    assume "response_loop ?n (rx ?st1) 0 ?st1 = Blocked st'"
    then show ?thesis by simp
  next
    assume "\<exists>r1 s1. response_loop ?n (rx ?st1) 0 ?st1 = Done r1 s1
        \<and> state_of (case copy_bits (local_buf s1) [unat offset..<unat (bit_cnt + offset)] buf of
                     None \<Rightarrow> Undefined | Some b' \<Rightarrow> Done (Some b') s1) = Some st'"
    then obtain r1 s1 where d: "response_loop ?n (rx ?st1) 0 ?st1 = Done r1 s1"
      and c: "state_of (case copy_bits (local_buf s1) [unat offset..<unat (bit_cnt + offset)] buf of
                     None \<Rightarrow> Undefined | Some b' \<Rightarrow> Done (Some b') s1) = Some st'"
      by blast
    from c have "s1 = st'"
      by (cases "copy_bits (local_buf s1) [unat offset..<unat (bit_cnt + offset)] buf") simp_all
    with d show ?thesis by simp
  qed
  from response_loop_state [OF this] have "tx st' = tx ?st1" by simp
  moreover have "?n < 256" using assms by simp
  ultimately show "tx st' = tx st @ [0xF1] @ hex2 (unat bit_cnt) @ hex2 (unat offset) @ hex2 ?n"
    by (simp add: fd_write_def exchange_header_hex(2) [OF assms])
qed

text \<open>
  Three bits at offset 2: without a payload the header is \<open>F1\<close>, \<open>03\<close>, \<open>02\<close>, \<open>00\<close>;
  with a one-byte capture buffer the length field is \<open>01\<close>.
\<close>

theorem read_exchange_header_witness:
  "unat (3 :: u32) < 256 \<and> unat (2 :: u32) < 256
   \<and> bitbang_exchange True None 2 3 (swd_start [[0x31, 0x43]])
       = Done None ((swd_start [[0x31, 0x43]])
                      \<lparr>tx := [0xF1, 0x30, 0x33, 0x30, 0x32, 0x30, 0x30], slept := 10000\<rparr>)
   \<and> bitbang_exchange True (Some [0x00]) 2 3 (swd_start [[0x31, 0x43]])
       = Done (Some [0x1C])
           ((swd_start [])\<lparr>tx := [0xF1, 0x30, 0x33, 0x30, 0x32, 0x30, 0x31],
                            local_buf := (replicate 1024 0)[0 := 0x1C]\<rparr>)"
  using read_exchange_header [of 3 2 "[0x00]" "swd_start [[0x31, 0x43]]"]
  by (simp add: hex2_def hex_digit_def swd_start_def bitbang_exchange_def DIV_ROUND_UP_def
      exchange_header_def GET_UPPER_HEX_def GET_LOWER_HEX_def fd_write_def usleep_def
      rx_char_def HEX_TO_INT_def upt_rec)

lemma replicate_update_same [simp]: "(replicate n x)[i := x] = replicate n x"
  by (induction n arbitrary: i) (simp_all split: nat.splits)






section \<open>The protocol engine\<close>


lemma response_loop_not_OutOfFuel: "response_loop target chunks data_cnt st \<noteq> OutOfFuel"
  by (induction chunks arbitrary: data_cnt st) (auto simp add: Let_def split: option.splits)



lemma state_of_loop_then:
  assumes "state_of (and_then (response_loop t chunks c s) f) = Some st'"
    and "\<And>r s2. state_of (f r s2) = Some st' \<Longrightarrow> s2 = st'"
  shows "state_of (response_loop t chunks c s) = Some st'"
  using state_of_and_then [OF assms(1)] assms(2) by auto

lemma state_of_copy:
  "state_of (case copy_bits src js b of None \<Rightarrow> Undefined | Some b' \<Rightarrow> Done (Some b') s2) = Some st'
    \<Longrightarrow> s2 = st'"
  by (cases "copy_bits src js b") simp_all

lemma exchange_preserves:
  assumes "state_of (bitbang_exchange rnw buf offset bit_cnt st) = Some st'"
  shows "queued_retval st' = queued_retval st \<and> swd_mode st' = swd_mode st \<and> fd st' = fd st
     \<and> stack_byte st' = stack_byte st \<and> frame st' = frame st
     \<and> length (local_buf st') = length (local_buf st)"
proof -
  let ?n = "unat (DIV_ROUND_UP (bit_cnt + offset) 8)"
  have fw: "queued_retval (fd_write bs s) = queued_retval s \<and> swd_mode (fd_write bs s) = swd_mode s
      \<and> fd (fd_write bs s) = fd s \<and> stack_byte (fd_write bs s) = stack_byte s
      \<and> frame (fd_write bs s) = frame s \<and> local_buf (fd_write bs s) = local_buf s" for bs s
    by (simp add: fd_write_def)
  consider (rn) "rnw" "buf = None" | (rs) b where "rnw" "buf = Some b"
    | (wn) "\<not> rnw" "buf = None" | (ws) b where "\<not> rnw" "buf = Some b"
    by (cases buf) auto
  then show ?thesis
  proof cases
    case rn
    with assms have "st' = usleep 10000 (fd_write (exchange_header 0xF1 bit_cnt offset None) st)"
      by (simp add: bitbang_exchange_def Let_def)
    then show ?thesis by (simp add: fd_write_def usleep_def)
  next
    case rs
    let ?s = "fd_write (exchange_header 0xF1 bit_cnt offset (Some ?n)) st"
    from rs assms have "state_of (and_then (response_loop ?n (rx ?s) 0 ?s)
        (\<lambda>data_cnt st2. case copy_bits (local_buf st2) [unat offset..<unat (bit_cnt + offset)] b of
                          None \<Rightarrow> Undefined | Some b' \<Rightarrow> Done (Some b') st2)) = Some st'"
      by (simp add: bitbang_exchange_def Let_def)
    then have "state_of (response_loop ?n (rx ?s) 0 ?s) = Some st'"
      by (rule state_of_loop_then) (rule state_of_copy)
    from response_loop_state [OF this] fw [of _ st] show ?thesis by simp
  next
    case wn
    let ?s = "fd_write (exchange_header 0xF0 bit_cnt offset None) st"
    from wn assms have "state_of (and_then (response_loop 1 (rx ?s) 0 ?s)
        (\<lambda>data_cnt st2. Done (None :: u8 list option) st2)) = Some st'"
      by (simp add: bitbang_exchange_def Let_def)
    then have "state_of (response_loop 1 (rx ?s) 0 ?s) = Some st'"
      by (rule state_of_loop_then) simp
    from response_loop_state [OF this] fw [of _ st] show ?thesis by simp
  next
    case ws
    let ?s = "fd_write (payload_hex (take ?n b)) (fd_write (exchange_header 0xF0 bit_cnt offset (Some ?n)) st)"
    from ws assms have "?n \<le> length b"
      by (simp add: bitbang_exchange_def Let_def split: if_splits)
    with ws assms have "state_of (and_then (response_loop 1 (rx ?s) 0 ?s)
        (\<lambda>data_cnt st3. Done (Some b) st3)) = Some st'"
      by (simp add: bitbang_exchange_def Let_def)
    then have "state_of (response_loop 1 (rx ?s) 0 ?s) = Some st'"
      by (rule state_of_loop_then) simp
    from response_loop_state [OF this] fw [of _ st] fw [of _ "fd_write (exchange_header 0xF0 bit_cnt offset (Some ?n)) st"]
    show ?thesis by simp
  qed
qed





lemma exchange_no_buffer:
  "bitbang_exchange True None offset bit_cnt st
     = Done None (st\<lparr>tx := tx st @ exchange_header 0xF1 bit_cnt offset None, slept := slept st + 10000\<rparr>)"
  by (simp add: bitbang_exchange_def fd_write_def usleep_def)

text \<open>
  What holds of the latch \<^verbatim>\<open>queued_retval\<close> in a call that is entered while it is not
  \<^verbatim>\<open>ERROR_OK\<close>: a register read (a command with \<^verbatim>\<open>RnW\<close> set, as its assertion
  demands) and a register write (a command with \<^verbatim>\<open>RnW\<close> clear) return at once in
  the very same state, so nothing is written, read or slept and the latch, the
  buffers and the caller's variable are as before; a switch-sequence and
  \<^verbatim>\<open>bitbang_swd_init\<close> leave the latch as it is; run-queue, after its idle exchange,
  returns the latched value and sets the latch back to \<^verbatim>\<open>ERROR_OK\<close>.
\<close>

lemma latched_at_entry_is_noop:
  assumes "queued_retval st \<noteq> ERROR_OK"
  shows "(cmd_r AND SWD_CMD_RnW \<noteq> 0 \<longrightarrow> bitbang_swd_read_reg fuel cmd_r val d st = Done val st)
       \<and> (cmd_w AND SWD_CMD_RnW = 0 \<longrightarrow> bitbang_swd_write_reg fuel cmd_w v d st = Done () st)
       \<and> (\<forall>st'. state_of (bitbang_swd_switch_seq sq seq st) = Some st'
              \<longrightarrow> queued_retval st' = queued_retval st)
       \<and> queued_retval (snd (bitbang_swd_init opened st)) = queued_retval st
       \<and> bitbang_swd_run_queue st
           = Done (queued_retval st)
               (st\<lparr>tx := tx st @ [0xF1, 0x30, 0x38, 0x30, 0x30, 0x30, 0x30],
                   slept := slept st + 10000, queued_retval := ERROR_OK\<rparr>)"
proof -
  have sw: "queued_retval st' = queued_retval st"
    if "state_of (bitbang_swd_switch_seq sq seq st) = Some st'" for st'
  proof (cases seq)
    case OTHER_SEQ
    with that show ?thesis by simp
  next
    case LINE_RESET
    with that have "state_of (and_then (bitbang_exchange False (Some (swd_seq_line_reset sq)) 0
        (swd_seq_line_reset_len sq) st) (\<lambda>b st1. Done ERROR_OK st1)) = Some st'" by simp
    from state_of_and_then [OF this]
    have "state_of (bitbang_exchange False (Some (swd_seq_line_reset sq)) 0
        (swd_seq_line_reset_len sq) st) = Some st'" by auto
    from exchange_preserves [OF this] show ?thesis by simp
  next
    case JTAG_TO_SWD
    with that have "state_of (and_then (bitbang_exchange False (Some (swd_seq_jtag_to_swd sq)) 0
        (swd_seq_jtag_to_swd_len sq) st) (\<lambda>b st1. Done ERROR_OK st1)) = Some st'" by simp
    from state_of_and_then [OF this]
    have "state_of (bitbang_exchange False (Some (swd_seq_jtag_to_swd sq)) 0
        (swd_seq_jtag_to_swd_len sq) st) = Some st'" by auto
    from exchange_preserves [OF this] show ?thesis by simp
  next
    case SWD_TO_JTAG
    with that have "state_of (and_then (bitbang_exchange False (Some (swd_seq_swd_to_jtag sq)) 0
        (swd_seq_swd_to_jtag_len sq) st) (\<lambda>b st1. Done ERROR_OK st1)) = Some st'" by simp
    from state_of_and_then [OF this]
    have "state_of (bitbang_exchange False (Some (swd_seq_swd_to_jtag sq)) 0
        (swd_seq_swd_to_jtag_len sq) st) = Some st'" by auto
    from exchange_preserves [OF this] show ?thesis by simp
  qed
  have run: "bitbang_swd_run_queue st
           = Done (queued_retval st)
               (st\<lparr>tx := tx st @ [0xF1, 0x30, 0x38, 0x30, 0x30, 0x30, 0x30],
                   slept := slept st + 10000, queued_retval := ERROR_OK\<rparr>)"
    by (simp add: bitbang_swd_run_queue_def exchange_no_buffer exchange_header_def
        GET_UPPER_HEX_def GET_LOWER_HEX_def)
  have init: "queued_retval (snd (bitbang_swd_init opened st)) = queued_retval st"
    by (simp add: bitbang_swd_init_def Let_def)
  from assms sw run init show ?thesis
    by (simp add: bitbang_swd_read_reg_def)
qed


lemma list_update_same: "i < length xs \<Longrightarrow> xs ! i = x \<Longrightarrow> xs[i := x] = xs"
  by auto

lemmas run_simps = swd_start_def bitbang_exchange_def DIV_ROUND_UP_def
      exchange_header_def GET_UPPER_HEX_def GET_LOWER_HEX_def fd_write_def usleep_def payload_hex_def
      rx_char_def HEX_TO_INT_def upt_rec nth_list_update list_update_same

lemmas engine_simps = bitbang_swd_read_reg_def idcode_read_def
       SWD_CMD_START_def SWD_CMD_PARK_def SWD_CMD_RnW_def SWD_CMD_APnDP_def ERROR_OK_def ERROR_FAIL_def
       trn_ack_data_parity_trn_def next_frame_def bitbang_interface_swdio_drive_def buf_get_u32_def
       parity_u32_def
       SWD_ACK_OK_def SWD_ACK_WAIT_def SWD_ACK_FAULT_def Let_def

text \<open>
  A read that meets FAULT latches 4; the next read and write do nothing, and
  run-queue hands the 4 back and clears the latch.
\<close>

lemma latched_at_entry_sample:
  "bitbang_swd_read_reg 1 idcode_read (Some 0) 0 (swd_start (fault_stream @ [[0x30, 0x30]]))
     = Done (Some 0) after_fault
   \<and> queued_retval after_fault = uint SWD_ACK_FAULT \<and> queued_retval after_fault \<noteq> ERROR_OK
   \<and> bitbang_swd_read_reg 5 idcode_read (Some 0) 0 after_fault = Done (Some 0) after_fault
   \<and> bitbang_swd_write_reg 5 abort_cmd sticky_clear_value 0 after_fault = Done () after_fault
   \<and> bitbang_swd_run_queue after_fault
       = Done 4 (after_fault\<lparr>tx := tx after_fault @ [0xF1, 0x30, 0x38, 0x30, 0x30, 0x30, 0x30],
                            slept := 10000, queued_retval := ERROR_OK\<rparr>)"
proof -
  have latched: "queued_retval after_fault \<noteq> ERROR_OK"
    by (simp add: after_fault_def ERROR_OK_def)
  have rd: "idcode_read AND SWD_CMD_RnW \<noteq> 0" by (simp add: idcode_read_def SWD_CMD_RnW_def)
  have wr: "abort_cmd AND SWD_CMD_RnW = 0" by (simp add: abort_cmd_def)
  have "bitbang_swd_read_reg 1 idcode_read (Some 0) 0 (swd_start (fault_stream @ [[0x30, 0x30]]))
     = Done (Some 0) after_fault"
    by (simp add: run_simps engine_simps fault_stream_def after_fault_def)
  moreover have "queued_retval after_fault = uint SWD_ACK_FAULT"
    by (simp add: after_fault_def SWD_ACK_FAULT_def)
  moreover have "slept after_fault = 0" by (simp add: after_fault_def swd_start_def)
  ultimately show ?thesis
    using latched rd wr
      latched_at_entry_is_noop [OF latched, of idcode_read 5 "Some 0" 0 abort_cmd sticky_clear_value]
    by (simp add: SWD_ACK_FAULT_def)
qed




section \<open>WAIT and retry\<close>

lemma copy_bits_total:
  "(\<forall>i\<in>set js. i div 8 < length src \<and> i div 8 < length buf \<and> i < 2 ^ 31)
    \<Longrightarrow> \<exists>buf'. copy_bits src js buf = Some buf'"
proof (induction js arbitrary: buf)
  case Nil
  show ?case by simp
next
  case (Cons i js)
  let ?buf1 = "if (src ! (i div 8)) AND 2 ^ (i mod 8) \<noteq> 0
               then buf[i div 8 := (buf ! (i div 8)) OR 2 ^ (i mod 8)]
               else buf[i div 8 := (buf ! (i div 8)) AND NOT (2 ^ (i mod 8))]"
  have "\<forall>i\<in>set js. i div 8 < length src \<and> i div 8 < length ?buf1 \<and> i < 2 ^ 31"
    using Cons.prems by simp
  from Cons.IH [OF this] obtain buf' where "copy_bits src js ?buf1 = Some buf'" by blast
  with Cons.prems show ?case by (simp add: Let_def)
qed

lemma buf_get_u32_cong:
  assumes "\<And>j. first \<le> j \<Longrightarrow> j < first + num \<Longrightarrow> get_bit b1 j = get_bit b2 j"
  shows "buf_get_u32 b1 first num = buf_get_u32 b2 first num"
proof -
  have "fold (\<lambda>i result. if bit (b1 ! (i div 8)) (i mod 8) then result OR push_bit (i - first) 1 else result) js a
      = fold (\<lambda>i result. if bit (b2 ! (i div 8)) (i mod 8) then result OR push_bit (i - first) 1 else result) js a"
    if "set js \<subseteq> {first..<first + num}" for js and a :: u32
    using that
  proof (induction js arbitrary: a)
    case Nil
    show ?case by simp
  next
    case (Cons i js)
    then have "get_bit b1 i = get_bit b2 i" using assms by simp
    then have "bit (b1 ! (i div 8)) (i mod 8) = bit (b2 ! (i div 8)) (i mod 8)"
      by (simp add: get_bit_def)
    with Cons show ?case by simp
  qed
  from this [of "[first..<first + num]" 0] show ?thesis by (simp add: buf_get_u32_def)
qed

lemma buf_set_u32_bits:
  assumes "first + num \<le> 8 * length buf"
  shows "length (buf_set_u32 buf first num v) = length buf
     \<and> (\<forall>j. get_bit (buf_set_u32 buf first num v) j
            = (if first \<le> j \<and> j < first + num then bit v (j - first) else get_bit buf j))"
proof -
  let ?f = "\<lambda>i b. if bit v (i - first)
                    then b[i div 8 := (b ! (i div 8)) OR push_bit (i mod 8) 1]
                    else b[i div 8 := (b ! (i div 8)) AND NOT (push_bit (i mod 8) 1)]"
  have "length (fold ?f js b) = length b
     \<and> (\<forall>j. get_bit (fold ?f js b) j = (if j \<in> set js then bit v (j - first) else get_bit b j))"
    if "\<forall>i\<in>set js. i div 8 < length b" for js and b :: "u8 list"
    using that
  proof (induction js arbitrary: b)
    case Nil
    show ?case by simp
  next
    case (Cons i js)
    then have inb: "i div 8 < length b" by simp
    have one: "get_bit (?f i b) j = (if j = i then bit v (i - first) else get_bit b j)" for j
      using inb by (simp add: get_bit_set get_bit_clear)
    have "\<forall>k\<in>set js. k div 8 < length (?f i b)" using Cons.prems by simp
    from Cons.IH [OF this] one show ?case by auto
  qed
  moreover have "\<forall>i\<in>set [first..<first + num]. i div 8 < length buf"
    using assms by (auto simp add: less_mult_imp_div_less mult.commute)
  ultimately show ?thesis by (simp add: buf_set_u32_def)
qed

lemma byte_eq_iff:
  "(w = (e::u8)) \<longleftrightarrow> (bit w 0 = bit e 0) \<and> (bit w 1 = bit e 1) \<and> (bit w 2 = bit e 2)
     \<and> (bit w 3 = bit e 3) \<and> (bit w 4 = bit e 4) \<and> (bit w 5 = bit e 5)
     \<and> (bit w 6 = bit e 6) \<and> (bit w 7 = bit e 7)"
proof
  assume r: "(bit w 0 = bit e 0) \<and> (bit w 1 = bit e 1) \<and> (bit w 2 = bit e 2)
     \<and> (bit w 3 = bit e 3) \<and> (bit w 4 = bit e 4) \<and> (bit w 5 = bit e 5)
     \<and> (bit w 6 = bit e 6) \<and> (bit w 7 = bit e 7)"
  show "w = e"
  proof (rule bit_word_eqI)
    fix n assume "n < LENGTH(8)"
    then have "n \<in> {0, 1, 2, 3, 4, 5, 6, 7}" by auto
    with r show "bit w n = bit e n" by auto
  qed
qed simp

lemma write_exchange_step:
  assumes "rx st = [c1, c2] # r" and "0 < length (local_buf st)"
    and "unat (DIV_ROUND_UP (b + off) 8) \<le> length buf"
  shows "bitbang_exchange False (Some buf) off b st
         = Done (Some buf)
             (st\<lparr>tx := tx st @ exchange_header 0xF0 b off (Some (unat (DIV_ROUND_UP (b + off) 8)))
                          @ payload_hex (take (unat (DIV_ROUND_UP (b + off) 8)) buf),
                 rx := r,
                 local_buf := (local_buf st)
                    [0 := word_of_int (HEX_TO_INT (sint c1)) * 16 OR word_of_int (HEX_TO_INT (sint c2))]\<rparr>)"
  using assms
  by (simp add: bitbang_exchange_def Let_def fd_write_def rx_char_def)

lemma read_exchange_step:
  assumes "rx st = chunk # r"
    and "rx_chunk chunk (0, local_buf st) = Some (cnt, lb)"
    and "cnt div 2 = unat (DIV_ROUND_UP (b + off) 8)"
    and "unat (b + off) \<le> 8 * length buf" and "unat (b + off) \<le> 8 * length lb"
    and "unat (b + off) < 2 ^ 31"
  shows "\<exists>buf'. bitbang_exchange True (Some buf) off b st
           = Done (Some buf')
               (st\<lparr>tx := tx st @ exchange_header 0xF1 b off (Some (unat (DIV_ROUND_UP (b + off) 8))),
                   rx := r, local_buf := lb\<rparr>)
       \<and> length buf' = length buf
       \<and> (\<forall>j. get_bit buf' j
              = (if unat off \<le> j \<and> j < unat (b + off) then get_bit lb j else get_bit buf j))"
proof -
  let ?js = "[unat off..<unat (b + off)]"
  have "\<forall>i\<in>set ?js. i div 8 < length lb \<and> i div 8 < length buf \<and> i < 2 ^ 31"
    using assms(4-6) by (auto simp add: less_mult_imp_div_less mult.commute)
  from copy_bits_total [OF this] obtain buf' where cp: "copy_bits lb ?js buf = Some buf'"
    by blast
  from copy_bits_bits [OF cp]
  have "length buf' = length buf"
    and "\<forall>j. get_bit buf' j = (if unat off \<le> j \<and> j < unat (b + off) then get_bit lb j else get_bit buf j)"
    by simp_all
  moreover have "bitbang_exchange True (Some buf) off b st
           = Done (Some buf')
               (st\<lparr>tx := tx st @ exchange_header 0xF1 b off (Some (unat (DIV_ROUND_UP (b + off) 8))),
                   rx := r, local_buf := lb\<rparr>)"
    using assms(1-3) cp by (simp add: bitbang_exchange_def Let_def fd_write_def)
  ultimately show ?thesis by blast
qed

lemma payload_hex_bytes: "payload_hex bytes = hex_bytes bytes"
proof -
  have "[GET_UPPER_HEX (ucast b), GET_LOWER_HEX (ucast b)] = hex2 (unat b)" for b :: u8
  proof -
    have small: "unat b < 256" using unsigned_less [of b, where ?'a = nat] by simp
    then have "unat (ucast b :: u32) = unat b"
      by (simp add: unsigned_ucast_eq take_bit_nat_eq_self)
    with small show ?thesis using hex_pair [of "ucast b :: u32"] by simp
  qed
  then show ?thesis by (simp add: payload_hex_def hex_bytes_def)
qed

lemma nth_by_bits:
  "(buf ! k = (e::u8)) \<longleftrightarrow>
     (get_bit buf (8 * k) = bit e 0) \<and> (get_bit buf (8 * k + 1) = bit e 1)
   \<and> (get_bit buf (8 * k + 2) = bit e 2) \<and> (get_bit buf (8 * k + 3) = bit e 3)
   \<and> (get_bit buf (8 * k + 4) = bit e 4) \<and> (get_bit buf (8 * k + 5) = bit e 5)
   \<and> (get_bit buf (8 * k + 6) = bit e 6) \<and> (get_bit buf (8 * k + 7) = bit e 7)"
proof -
  have "(8 * k + m) div 8 = k \<and> (8 * k + m) mod 8 = m" if "m < 8" for m
    using that by auto
  from this [of 0] this [of 1] this [of 2] this [of 3] this [of 4] this [of 5] this [of 6] this [of 7]
  show ?thesis by (simp add: byte_eq_iff [of "buf ! k" e] get_bit_def)
qed

lemma take_5_of_6: "length xs = 6 \<Longrightarrow> take 5 xs = [xs ! 0, xs ! 1, xs ! 2, xs ! 3, xs ! 4]"
  by (simp add: list_eq_iff_nth_eq less_Suc_eq eval_nat_numeral)

lemma cmd_framed: "cmd OR SWD_CMD_START OR SWD_CMD_PARK = cmd OR 0x81"
  by (simp add: SWD_CMD_START_def SWD_CMD_PARK_def or.assoc)

lemma cmd_framed_twice: "(cmd OR 0x81) OR (0x81 :: u8) = cmd OR 0x81"
  by (simp add: or.assoc)

lemma cmd_framed_ap: "(cmd OR 0x81) AND SWD_CMD_APnDP = cmd AND SWD_CMD_APnDP"
  by (simp add: SWD_CMD_APnDP_def word_ao_dist)

lemma read_attempt_tx_framed: "read_attempt_tx (cmd OR SWD_CMD_START OR SWD_CMD_PARK) = read_attempt_tx cmd"
  by (simp add: read_attempt_tx_def cmd_framed cmd_framed_twice)

lemma read_loop_wait_step:
  assumes "bitbang_exchange False (Some [cmd OR SWD_CMD_START OR SWD_CMD_PARK]) 0 8 (next_frame st)
             = Done b st1"
    and "bitbang_exchange True (Some (trn_ack_data_parity_trn st)) 0 38
           (bitbang_interface_swdio_drive False st1) = Done (Some buf1) st2"
    and "buf_get_u32 buf1 1 3 = SWD_ACK_WAIT"
  shows "swd_read_loop (Suc fuel) cmd val ap_delay_clk st
           = and_then (swd_clear_sticky_errors fuel (bitbang_interface_swdio_drive True st2))
               (\<lambda>u st4. swd_read_loop fuel (cmd OR SWD_CMD_START OR SWD_CMD_PARK) val ap_delay_clk st4)"
  using assms by (simp add: Let_def SWD_ACK_OK_def SWD_ACK_WAIT_def)

lemma read_loop_ok_step:
  assumes "bitbang_exchange False (Some [cmd OR SWD_CMD_START OR SWD_CMD_PARK]) 0 8 (next_frame st)
             = Done b st1"
    and "bitbang_exchange True (Some (trn_ack_data_parity_trn st)) 0 38
           (bitbang_interface_swdio_drive False st1) = Done (Some buf1) st2"
    and "buf_get_u32 buf1 1 3 = SWD_ACK_OK"
    and "buf_get_u32 buf1 36 1 = parity_u32 (buf_get_u32 buf1 4 32)"
  shows "swd_read_loop (Suc fuel) cmd (Some old) ap_delay_clk st
           = Done (Some (buf_get_u32 buf1 4 32))
               ((bitbang_interface_swdio_drive True st2)
                  \<lparr>tx := tx (bitbang_interface_swdio_drive True st2) @ ap_delay_tx cmd ap_delay_clk,
                    slept := slept (bitbang_interface_swdio_drive True st2) + ap_delay_us cmd\<rparr>)"
  using assms
  by (simp add: Let_def cmd_framed cmd_framed_ap ap_delay_tx_def ap_delay_us_def exchange_no_buffer)

lemma read_loop_other_step:
  assumes "bitbang_exchange False (Some [cmd OR SWD_CMD_START OR SWD_CMD_PARK]) 0 8 (next_frame st)
             = Done b st1"
    and "bitbang_exchange True (Some (trn_ack_data_parity_trn st)) 0 38
           (bitbang_interface_swdio_drive False st1) = Done (Some buf1) st2"
    and "buf_get_u32 buf1 1 3 \<noteq> SWD_ACK_OK" and "buf_get_u32 buf1 1 3 \<noteq> SWD_ACK_WAIT"
  shows "swd_read_loop (Suc fuel) cmd val ap_delay_clk st
           = Done val ((bitbang_interface_swdio_drive True st2)
                         \<lparr>queued_retval := uint (buf_get_u32 buf1 1 3)\<rparr>)"
  using assms by (simp add: Let_def)



lemma write_loop_other_step:
  assumes "bitbang_exchange False (Some [cmd OR SWD_CMD_START OR SWD_CMD_PARK]) 0 8 (next_frame st)
             = Done b st1"
    and "bitbang_exchange True
           (Some (buf_set_u32 (buf_set_u32 (trn_ack_data_parity_trn st) 5 32 v) 37 1 (parity_u32 v))) 0 5
           (bitbang_interface_swdio_drive False st1) = Done (Some buf1) st2"
    and "bitbang_exchange False (Some buf1) 5 33 (bitbang_interface_swdio_drive True st2) = Done b2 st3"
    and "buf_get_u32 buf1 1 3 \<noteq> SWD_ACK_OK" and "buf_get_u32 buf1 1 3 \<noteq> SWD_ACK_WAIT"
  shows "swd_write_loop (Suc fuel) cmd v ap_delay_clk st
           = Done () (st3\<lparr>queued_retval := uint (buf_get_u32 buf1 1 3)\<rparr>)"
  using assms by (simp add: Let_def)

lemma read_attempt_exchanges:
  assumes len: "length (local_buf st) = 1024" and rx: "rx st = ack_reply # reply # r"
    and chunk: "rx_chunk reply (0, (local_buf st)[0 := 0]) = Some (10, lb)"
  shows "\<exists>st1 st2 buf1.
      bitbang_exchange False (Some [cmd OR SWD_CMD_START OR SWD_CMD_PARK]) 0 8 (next_frame st)
        = Done (Some [cmd OR SWD_CMD_START OR SWD_CMD_PARK]) st1
    \<and> bitbang_exchange True (Some (trn_ack_data_parity_trn st)) 0 38
        (bitbang_interface_swdio_drive False st1) = Done (Some buf1) st2
    \<and> bitbang_interface_swdio_drive True st2
        = st\<lparr>tx := tx st @ read_attempt_tx cmd, rx := r, local_buf := lb, frame := Suc (frame st)\<rparr>
    \<and> (\<forall>j<38. get_bit buf1 j = get_bit lb j)"
proof -
  let ?cmd = "cmd OR SWD_CMD_START OR SWD_CMD_PARK"
  let ?st1 = "st\<lparr>tx := tx st @ exchange_header 0xF0 8 0 (Some 1) @ payload_hex [?cmd],
                 rx := reply # r, local_buf := (local_buf st)[0 := 0], frame := Suc (frame st)\<rparr>"
  let ?st2 = "st\<lparr>tx := tx st @ exchange_header 0xF0 8 0 (Some 1) @ payload_hex [?cmd] @ [0xE0]
                        @ exchange_header 0xF1 38 0 (Some 5),
                 rx := r, local_buf := lb, frame := Suc (frame st)\<rparr>"
  from rx_chunk_count [OF chunk] len have lenlb: "length lb = 1024" by simp
  have e1: "bitbang_exchange False (Some [?cmd]) 0 8 (next_frame st) = Done (Some [?cmd]) ?st1"
    using write_exchange_step [of "next_frame st" "0x30" "0x30" "reply # r" 8 0 "[?cmd]"] len rx
    by (simp add: ack_reply_def DIV_ROUND_UP_def HEX_TO_INT_def next_frame_def)
  have chunk': "rx_chunk reply (0, local_buf (bitbang_interface_swdio_drive False ?st1)) = Some (10, lb)"
    using chunk by (simp add: bitbang_interface_swdio_drive_def fd_write_def)
  from read_exchange_step [OF _ chunk', of r 38 0 "trn_ack_data_parity_trn st"] lenlb
  obtain buf1 where e2: "bitbang_exchange True (Some (trn_ack_data_parity_trn st)) 0 38
           (bitbang_interface_swdio_drive False ?st1) = Done (Some buf1) ?st2"
      and bits: "\<forall>j. get_bit buf1 j = (if j < 38 then get_bit lb j else get_bit (trn_ack_data_parity_trn st) j)"
    by (auto simp add: DIV_ROUND_UP_def bitbang_interface_swdio_drive_def fd_write_def
        trn_ack_data_parity_trn_def)
  have tx: "tx st @ exchange_header 0xF0 8 0 (Some 1) @ payload_hex [?cmd] @ [0xE0]
                        @ exchange_header 0xF1 38 0 (Some 5) @ [0xE1] = tx st @ read_attempt_tx cmd"
    by (simp add: read_attempt_tx_def payload_hex_bytes exchange_header_hex SWD_CMD_START_def SWD_CMD_PARK_def
        or.assoc)
  have st3: "bitbang_interface_swdio_drive True ?st2
       = st\<lparr>tx := tx st @ read_attempt_tx cmd, rx := r, local_buf := lb, frame := Suc (frame st)\<rparr>"
    using tx by (simp add: bitbang_interface_swdio_drive_def fd_write_def)
  have b38: "\<forall>j<38. get_bit buf1 j = get_bit lb j" by (simp add: bits)
  from e1 e2 st3 b38 show ?thesis by blast
qed

lemma parity_bit: "bit (parity_u32 v) n \<longleftrightarrow> n = 0 \<and> parity_u32 v = 1"
  by (simp add: parity_u32_def bit_1_iff)

lemma high_bits_u32: "32 \<le> n \<Longrightarrow> \<not> bit (v :: u32) n"
  by (auto dest: bit_imp_le_length)

lemma write_data_bytes_bits:
  assumes len: "length buf = 6"
    and low: "\<And>j. j < 5 \<Longrightarrow> get_bit buf j = bit a j"
    and val: "\<And>j. 5 \<le> j \<Longrightarrow> j < 37 \<Longrightarrow> get_bit buf j = bit v (j - 5)"
    and par: "get_bit buf 37 = bit (parity_u32 v) 0"
    and s38: "get_bit buf 38 = bit stale 6" and s39: "get_bit buf 39 = bit stale 7"
  shows "take 5 buf = write_data_bytes a v stale"
  unfolding take_5_of_6 [OF len] write_data_bytes_def
  by (simp add: nth_by_bits low val par s38 s39 bit_or_iff bit_and_iff bit_push_bit_iff
      bit_ucast_iff bit_drop_bit_eq parity_bit high_bits_u32 flip: numeral_2_eq_2)


lemma write_attempt_exchanges:
  assumes len: "length (local_buf st) = 1024"
    and rx: "rx st = ack_reply # reply # ack_reply # r"
    and chunk: "rx_chunk reply (0, (local_buf st)[0 := 0]) = Some (2, (local_buf st)[0 := a])"
  shows "\<exists>st1 st2 buf1.
      bitbang_exchange False (Some [cmd OR SWD_CMD_START OR SWD_CMD_PARK]) 0 8 (next_frame st)
        = Done (Some [cmd OR SWD_CMD_START OR SWD_CMD_PARK]) st1
    \<and> bitbang_exchange True
          (Some (buf_set_u32 (buf_set_u32 (trn_ack_data_parity_trn st) 5 32 v) 37 1 (parity_u32 v))) 0 5
          (bitbang_interface_swdio_drive False st1) = Done (Some buf1) st2
    \<and> bitbang_exchange False (Some buf1) 5 33 (bitbang_interface_swdio_drive True st2)
        = Done (Some buf1)
            (st\<lparr>tx := tx st @ write_attempt_tx cmd v a (stack_byte st (frame st) 4), rx := r,
                local_buf := (local_buf st)[0 := 0], frame := Suc (frame st)\<rparr>)
    \<and> buf_get_u32 buf1 1 3 = buf_get_u32 [a] 1 3"
proof -
  let ?cmd = "cmd OR SWD_CMD_START OR SWD_CMD_PARK"
  define junk where "junk = trn_ack_data_parity_trn st"
  define buf0 where "buf0 = buf_set_u32 (buf_set_u32 junk 5 32 v) 37 1 (parity_u32 v)"
  let ?t1 = "tx st @ exchange_header 0xF0 8 0 (Some 1) @ payload_hex [?cmd]"
  let ?st1 = "st\<lparr>tx := ?t1, rx := reply # ack_reply # r, local_buf := (local_buf st)[0 := 0],
                 frame := Suc (frame st)\<rparr>"
  let ?lb = "(local_buf st)[0 := a]"
  let ?t2 = "?t1 @ [0xE0] @ exchange_header 0xF1 5 0 (Some 1)"
  let ?st2 = "st\<lparr>tx := ?t2, rx := ack_reply # r, local_buf := ?lb, frame := Suc (frame st)\<rparr>"
  have junk_len: "length junk = 6" by (simp add: junk_def trn_ack_data_parity_trn_def)
  have junk_bits: "get_bit junk 38 = bit (stack_byte st (frame st) 4) 6"
      "get_bit junk 39 = bit (stack_byte st (frame st) 4) 7"
    by (simp_all add: junk_def trn_ack_data_parity_trn_def get_bit_def)
  have set1: "length (buf_set_u32 junk 5 32 v) = 6"
     "\<And>j. get_bit (buf_set_u32 junk 5 32 v) j
        = (if 5 \<le> j \<and> j < 37 then bit v (j - 5) else get_bit junk j)"
    using buf_set_u32_bits [of 5 32 junk v]
    by (simp_all add: junk_len)
  have set2: "length buf0 = 6"
     "\<And>j. get_bit buf0 j
        = (if j = 37 then bit (parity_u32 v) 0 else if 5 \<le> j \<and> j < 37 then bit v (j - 5)
           else get_bit junk j)"
    using buf_set_u32_bits [of 37 1 "buf_set_u32 junk 5 32 v" "parity_u32 v"]
    by (auto simp add: set1 buf0_def)
  have w1: "bitbang_exchange False (Some [?cmd]) 0 8 (next_frame st) = Done (Some [?cmd]) ?st1"
    using write_exchange_step [of "next_frame st" "0x30" "0x30" "reply # ack_reply # r" 8 0 "[?cmd]"] len rx
    by (simp add: ack_reply_def DIV_ROUND_UP_def HEX_TO_INT_def next_frame_def)
  have chunk': "rx_chunk reply (0, local_buf (bitbang_interface_swdio_drive False ?st1)) = Some (2, ?lb)"
    using chunk by (simp add: bitbang_interface_swdio_drive_def fd_write_def)
  from read_exchange_step [OF _ chunk', of "ack_reply # r" 5 0 buf0] len set2(1)
  obtain buf1 where w2: "bitbang_exchange True (Some buf0) 0 5
           (bitbang_interface_swdio_drive False ?st1) = Done (Some buf1) ?st2"
      and len1: "length buf1 = 6"
      and bits: "\<And>j. get_bit buf1 j = (if j < 5 then get_bit ?lb j else get_bit buf0 j)"
    by (auto simp add: DIV_ROUND_UP_def bitbang_interface_swdio_drive_def fd_write_def)
  let ?t3 = "?t2 @ [0xE1] @ exchange_header 0xF0 33 5 (Some 5) @ payload_hex (take 5 buf1)"
  let ?st3 = "st\<lparr>tx := ?t3, rx := r, local_buf := (local_buf st)[0 := 0], frame := Suc (frame st)\<rparr>"
  have w3: "bitbang_exchange False (Some buf1) 5 33 (bitbang_interface_swdio_drive True ?st2)
              = Done (Some buf1) ?st3"
    using write_exchange_step [of "bitbang_interface_swdio_drive True ?st2" "0x30" "0x30" r 33 5 buf1] len len1
    by (simp add: ack_reply_def DIV_ROUND_UP_def HEX_TO_INT_def bitbang_interface_swdio_drive_def fd_write_def)
  have lb_bits: "get_bit ?lb j = bit a j" if "j < 8" for j
    using that len by (simp add: get_bit_def)
  have one_bits: "get_bit [a] j = bit a j" if "j < 8" for j
    using that by (simp add: get_bit_def)
  have ack: "buf_get_u32 buf1 1 3 = buf_get_u32 [a] 1 3"
    by (rule buf_get_u32_cong) (simp add: bits lb_bits one_bits)
  have w2': "bitbang_exchange True
           (Some (buf_set_u32 (buf_set_u32 (trn_ack_data_parity_trn st) 5 32 v) 37 1 (parity_u32 v))) 0 5
           (bitbang_interface_swdio_drive False ?st1) = Done (Some buf1) ?st2"
    using w2 by (simp only: buf0_def junk_def)
  have bytes: "take 5 buf1 = write_data_bytes a v (stack_byte st (frame st) 4)"
    by (rule write_data_bytes_bits [OF len1]) (simp_all add: bits set2 lb_bits junk_bits)
  have tx: "?t3 = tx st @ write_attempt_tx cmd v a (stack_byte st (frame st) 4)"
    by (simp add: write_attempt_tx_def payload_hex_bytes exchange_header_hex bytes cmd_framed)
  from w1 w2' w3 [unfolded tx] ack show ?thesis by blast
qed

lemma read_attempt_wait:
  assumes len: "length (local_buf st) = 1024" and rx: "rx st = ack_reply # wait_reply # r"
  shows "\<exists>lb. length lb = 1024
    \<and> swd_read_loop (Suc fuel) cmd val d st
        = and_then (swd_clear_sticky_errors fuel
             (st\<lparr>tx := tx st @ read_attempt_tx cmd, rx := r, local_buf := lb, frame := Suc (frame st)\<rparr>))
            (\<lambda>u st4. swd_read_loop fuel (cmd OR SWD_CMD_START OR SWD_CMD_PARK) val d st4)"
proof -
  let ?lb = "(local_buf st)[0 := 0x04, Suc 0 := 0, Suc (Suc 0) := 0, Suc (Suc (Suc 0)) := 0,
                Suc (Suc (Suc (Suc 0))) := 0]"
  have chunk: "rx_chunk wait_reply (0, (local_buf st)[0 := 0]) = Some (10, ?lb)"
    using len by (simp add: wait_reply_def rx_char_def HEX_TO_INT_def nth_list_update)
  from read_attempt_exchanges [OF len rx chunk, of cmd]
  obtain st1 st2 buf1 where
      e1: "bitbang_exchange False (Some [cmd OR SWD_CMD_START OR SWD_CMD_PARK]) 0 8 (next_frame st)
             = Done (Some [cmd OR SWD_CMD_START OR SWD_CMD_PARK]) st1"
    and e2: "bitbang_exchange True (Some (trn_ack_data_parity_trn st)) 0 38
        (bitbang_interface_swdio_drive False st1) = Done (Some buf1) st2"
    and st3: "bitbang_interface_swdio_drive True st2
        = st\<lparr>tx := tx st @ read_attempt_tx cmd, rx := r, local_buf := ?lb, frame := Suc (frame st)\<rparr>"
    and bits: "\<forall>j<38. get_bit buf1 j = get_bit ?lb j"
    by blast
  have "buf_get_u32 buf1 1 3 = buf_get_u32 ?lb 1 3"
    by (rule buf_get_u32_cong) (simp add: bits)
  also have "\<dots> = SWD_ACK_WAIT"
    using len by (simp add: buf_get_u32_def upt_rec nth_list_update SWD_ACK_WAIT_def)
  finally have ack: "buf_get_u32 buf1 1 3 = SWD_ACK_WAIT" .
  from read_loop_wait_step [OF e1 e2 ack, of fuel val d] st3 len
  show ?thesis by (intro exI [of _ ?lb]) simp
qed

lemma read_attempt_none:
  assumes len: "length (local_buf st) = 1024" and rx: "rx st = ack_reply # none_reply # r"
  shows "\<exists>lb. length lb = 1024
    \<and> swd_read_loop (Suc fuel) cmd val d st
        = Done val (st\<lparr>tx := tx st @ read_attempt_tx cmd, rx := r, local_buf := lb,
                       queued_retval := 0, frame := Suc (frame st)\<rparr>)"
proof -
  let ?lb = "(local_buf st)[0 := 0, Suc 0 := 0, Suc (Suc 0) := 0, Suc (Suc (Suc 0)) := 0,
                Suc (Suc (Suc (Suc 0))) := 0]"
  have chunk: "rx_chunk none_reply (0, (local_buf st)[0 := 0]) = Some (10, ?lb)"
    using len by (simp add: none_reply_def rx_char_def HEX_TO_INT_def nth_list_update)
  from read_attempt_exchanges [OF len rx chunk, of cmd]
  obtain st1 st2 buf1 where
      e1: "bitbang_exchange False (Some [cmd OR SWD_CMD_START OR SWD_CMD_PARK]) 0 8 (next_frame st)
             = Done (Some [cmd OR SWD_CMD_START OR SWD_CMD_PARK]) st1"
    and e2: "bitbang_exchange True (Some (trn_ack_data_parity_trn st)) 0 38
        (bitbang_interface_swdio_drive False st1) = Done (Some buf1) st2"
    and st3: "bitbang_interface_swdio_drive True st2
        = st\<lparr>tx := tx st @ read_attempt_tx cmd, rx := r, local_buf := ?lb, frame := Suc (frame st)\<rparr>"
    and bits: "\<forall>j<38. get_bit buf1 j = get_bit ?lb j"
    by blast
  have "buf_get_u32 buf1 1 3 = buf_get_u32 ?lb 1 3"
    by (rule buf_get_u32_cong) (simp add: bits)
  also have "\<dots> = 0"
    using len by (simp add: buf_get_u32_def upt_rec nth_list_update)
  finally have ack: "buf_get_u32 buf1 1 3 = 0" .
  have n1: "buf_get_u32 buf1 1 3 \<noteq> SWD_ACK_OK" and n2: "buf_get_u32 buf1 1 3 \<noteq> SWD_ACK_WAIT"
    using ack by (simp_all add: SWD_ACK_OK_def SWD_ACK_WAIT_def)
  from read_loop_other_step [OF e1 e2 n1 n2, of fuel val d] st3 len ack
  show ?thesis by (intro exI [of _ ?lb]) simp
qed

lemma read_attempt_ok:
  assumes len: "length (local_buf st) = 1024" and rx: "rx st = ack_reply # ok_reply # r"
  shows "\<exists>lb. length lb = 1024
    \<and> swd_read_loop (Suc fuel) cmd (Some old) d st
        = Done (Some 1)
            (st\<lparr>tx := tx st @ read_attempt_tx cmd @ ap_delay_tx cmd d, rx := r,
                slept := slept st + ap_delay_us cmd, local_buf := lb, frame := Suc (frame st)\<rparr>)"
proof -
  let ?lb = "(local_buf st)[0 := 0x12, Suc 0 := 0, Suc (Suc 0) := 0, Suc (Suc (Suc 0)) := 0,
                Suc (Suc (Suc (Suc 0))) := 0x10]"
  have chunk: "rx_chunk ok_reply (0, (local_buf st)[0 := 0]) = Some (10, ?lb)"
    using len by (simp add: ok_reply_def rx_char_def HEX_TO_INT_def nth_list_update)
  from read_attempt_exchanges [OF len rx chunk, of cmd]
  obtain st1 st2 buf1 where
      e1: "bitbang_exchange False (Some [cmd OR SWD_CMD_START OR SWD_CMD_PARK]) 0 8 (next_frame st)
             = Done (Some [cmd OR SWD_CMD_START OR SWD_CMD_PARK]) st1"
    and e2: "bitbang_exchange True (Some (trn_ack_data_parity_trn st)) 0 38
        (bitbang_interface_swdio_drive False st1) = Done (Some buf1) st2"
    and st3: "bitbang_interface_swdio_drive True st2
        = st\<lparr>tx := tx st @ read_attempt_tx cmd, rx := r, local_buf := ?lb, frame := Suc (frame st)\<rparr>"
    and bits: "\<forall>j<38. get_bit buf1 j = get_bit ?lb j"
    by blast
  have "buf_get_u32 buf1 1 3 = buf_get_u32 ?lb 1 3"
    by (rule buf_get_u32_cong) (simp add: bits)
  also have "\<dots> = SWD_ACK_OK"
    using len by (simp add: buf_get_u32_def upt_rec nth_list_update SWD_ACK_OK_def)
  finally have ack: "buf_get_u32 buf1 1 3 = SWD_ACK_OK" .
  have "buf_get_u32 buf1 4 32 = buf_get_u32 ?lb 4 32"
    by (rule buf_get_u32_cong) (simp add: bits)
  also have "\<dots> = 1"
    using len by (simp add: buf_get_u32_def upt_rec nth_list_update)
  finally have data: "buf_get_u32 buf1 4 32 = 1" .
  have "buf_get_u32 buf1 36 1 = buf_get_u32 ?lb 36 1"
    by (rule buf_get_u32_cong) (simp add: bits)
  also have "\<dots> = 1"
    using len by (simp add: buf_get_u32_def upt_rec nth_list_update)
  finally have par: "buf_get_u32 buf1 36 1 = 1" .
  have p1: "parity_u32 1 = 1" by (simp add: parity_u32_def upt_rec)
  have parity: "buf_get_u32 buf1 36 1 = parity_u32 (buf_get_u32 buf1 4 32)"
    by (simp only: par data p1)
  from read_loop_ok_step [OF e1 e2 ack parity, of fuel old d] st3 len data
  show ?thesis by (intro exI [of _ ?lb]) simp
qed

lemma write_reply_chunks:
  assumes "0 < length lb"
  shows "rx_chunk write_ok_reply (0, lb[0 := 0]) = Some (2, lb[0 := 0x02])"
    and "rx_chunk write_wait_reply (0, lb[0 := 0]) = Some (2, lb[0 := 0x04])"
    and "rx_chunk write_fault_reply (0, lb[0 := 0]) = Some (2, lb[0 := 0x08])"
  using assms
  by (simp_all add: write_ok_reply_def write_wait_reply_def write_fault_reply_def rx_char_def HEX_TO_INT_def)

lemma write_acks:
  "buf_get_u32 [0x02] 1 3 = SWD_ACK_OK" "buf_get_u32 [0x04] 1 3 = SWD_ACK_WAIT"
  "buf_get_u32 [0x08] 1 3 = SWD_ACK_FAULT"
  by (simp_all add: buf_get_u32_def upt_rec SWD_ACK_OK_def SWD_ACK_WAIT_def SWD_ACK_FAULT_def)



lemma write_attempt_fault:
  assumes len: "length (local_buf st) = 1024" and rx: "rx st = ack_reply # write_fault_reply # ack_reply # r"
  shows "swd_write_loop (Suc fuel) cmd v d st
        = Done () (st\<lparr>tx := tx st @ write_attempt_tx cmd v 0x08 (stack_byte st (frame st) 4), rx := r,
                      local_buf := (local_buf st)[0 := 0], queued_retval := 4, frame := Suc (frame st)\<rparr>)"
proof -
  from len have pos: "0 < length (local_buf st)" by simp
  from write_attempt_exchanges [OF len rx write_reply_chunks(3) [OF pos], of cmd v]
  obtain st1 st2 buf1 where
      e1: "bitbang_exchange False (Some [cmd OR SWD_CMD_START OR SWD_CMD_PARK]) 0 8 (next_frame st)
             = Done (Some [cmd OR SWD_CMD_START OR SWD_CMD_PARK]) st1"
    and e2: "bitbang_exchange True
          (Some (buf_set_u32 (buf_set_u32 (trn_ack_data_parity_trn st) 5 32 v) 37 1 (parity_u32 v))) 0 5
          (bitbang_interface_swdio_drive False st1) = Done (Some buf1) st2"
    and e3: "bitbang_exchange False (Some buf1) 5 33 (bitbang_interface_swdio_drive True st2)
        = Done (Some buf1)
            (st\<lparr>tx := tx st @ write_attempt_tx cmd v 0x08 (stack_byte st (frame st) 4), rx := r,
                local_buf := (local_buf st)[0 := 0], frame := Suc (frame st)\<rparr>)"
    and ack: "buf_get_u32 buf1 1 3 = buf_get_u32 [0x08] 1 3"
    by blast
  from ack have fault: "buf_get_u32 buf1 1 3 = SWD_ACK_FAULT" by (simp only: write_acks)
  have n1: "buf_get_u32 buf1 1 3 \<noteq> SWD_ACK_OK" and n2: "buf_get_u32 buf1 1 3 \<noteq> SWD_ACK_WAIT"
    using fault by (simp_all add: SWD_ACK_OK_def SWD_ACK_WAIT_def SWD_ACK_FAULT_def)
  from write_loop_other_step [OF e1 e2 e3 n1 n2, of fuel d] fault show ?thesis
    by (simp add: SWD_ACK_FAULT_def)
qed


lemma clear_write_fault:
  assumes "length (local_buf st) = 1024" and "queued_retval st = ERROR_OK"
    and "rx st = ack_reply # write_fault_reply # ack_reply # r"
  shows "swd_clear_sticky_errors (Suc fuel) st
        = Done () (st\<lparr>tx := tx st @ clear_write_tx 0x08 (stack_byte st (frame st) 4), rx := r,
                      local_buf := (local_buf st)[0 := 0], queued_retval := 4, frame := Suc (frame st)\<rparr>)"
  using write_attempt_fault [OF assms(1) assms(3), of fuel abort_cmd sticky_clear_value 0] assms(2)
  by (simp add: swd_clear_sticky_errors_def clear_write_tx_def abort_cmd_def SWD_CMD_RnW_def)






lemmas wire_simps = read_attempt_tx_def write_attempt_tx_def clear_write_tx_def write_data_bytes_def
  hex_bytes_def hex2_def hex_digit_def

lemma sample_wire:
  "read_attempt_tx idcode_read
       = [0xF0, 0x30, 0x38, 0x30, 0x30, 0x30, 0x31, 0x41, 0x35, 0xE0,
          0xF1, 0x32, 0x36, 0x30, 0x30, 0x30, 0x35, 0xE1]"
  "clear_write_tx 0x02 0x55
       = [0xF0, 0x30, 0x38, 0x30, 0x30, 0x30, 0x31, 0x38, 0x31, 0xE0,
          0xF1, 0x30, 0x35, 0x30, 0x30, 0x30, 0x31, 0xE1,
          0xF0, 0x32, 0x31, 0x30, 0x35, 0x30, 0x35,
          0x43, 0x32, 0x30, 0x33, 0x30, 0x30, 0x30, 0x30, 0x34, 0x30]"
  "clear_write_tx 0x02 0xFF
       = [0xF0, 0x30, 0x38, 0x30, 0x30, 0x30, 0x31, 0x38, 0x31, 0xE0,
          0xF1, 0x30, 0x35, 0x30, 0x30, 0x30, 0x31, 0xE1,
          0xF0, 0x32, 0x31, 0x30, 0x35, 0x30, 0x35,
          0x43, 0x32, 0x30, 0x33, 0x30, 0x30, 0x30, 0x30, 0x43, 0x30]"
  "clear_write_tx 0x08 0
       = [0xF0, 0x30, 0x38, 0x30, 0x30, 0x30, 0x31, 0x38, 0x31, 0xE0,
          0xF1, 0x30, 0x35, 0x30, 0x30, 0x30, 0x31, 0xE1,
          0xF0, 0x32, 0x31, 0x30, 0x35, 0x30, 0x35,
          0x43, 0x38, 0x30, 0x33, 0x30, 0x30, 0x30, 0x30, 0x30, 0x30]"
  "write_attempt_tx select_write 0x800000F3 0x04 0
       = [0xF0, 0x30, 0x38, 0x30, 0x30, 0x30, 0x31, 0x42, 0x31, 0xE0,
          0xF1, 0x30, 0x35, 0x30, 0x30, 0x30, 0x31, 0xE1,
          0xF0, 0x32, 0x31, 0x30, 0x35, 0x30, 0x35,
          0x36, 0x34, 0x31, 0x45, 0x30, 0x30, 0x30, 0x30, 0x33, 0x30]"
  "write_attempt_tx select_write 0x800000F3 0x02 0xAA
       = [0xF0, 0x30, 0x38, 0x30, 0x30, 0x30, 0x31, 0x42, 0x31, 0xE0,
          0xF1, 0x30, 0x35, 0x30, 0x30, 0x30, 0x31, 0xE1,
          0xF0, 0x32, 0x31, 0x30, 0x35, 0x30, 0x35,
          0x36, 0x32, 0x31, 0x45, 0x30, 0x30, 0x30, 0x30, 0x42, 0x30]"
  by (simp_all add: wire_simps idcode_read_def select_write_def abort_cmd_def sticky_clear_value_def
      parity_u32_def upt_rec)

lemma sample_starts:
  "length (local_buf (swd_start incoming)) = 1024" "queued_retval (swd_start incoming) = ERROR_OK"
  "rx (swd_start incoming) = incoming" "tx (swd_start incoming) = []" "frame (swd_start incoming) = 0"
  "stack_byte (swd_start incoming) k i = 0" "slept (swd_start incoming) = 0"
  "length (local_buf (stale_start incoming)) = 1024" "queued_retval (stale_start incoming) = ERROR_OK"
  "rx (stale_start incoming) = incoming" "tx (stale_start incoming) = []" "frame (stale_start incoming) = 0"
  "stack_byte (stale_start incoming) k i = of_nat (85 * k)" "slept (stale_start incoming) = 0"
  by (simp_all add: swd_start_def stale_start_def stale_stack_def ERROR_OK_def)


lemma write_exchange_blocked:
  assumes "rx st = []" and "unat (DIV_ROUND_UP (b + off) 8) \<le> length buf"
  shows "bitbang_exchange False (Some buf) off b st
         = Blocked (st\<lparr>tx := tx st @ exchange_header 0xF0 b off (Some (unat (DIV_ROUND_UP (b + off) 8)))
                              @ payload_hex (take (unat (DIV_ROUND_UP (b + off) 8)) buf)\<rparr>)"
  using assms by (simp add: bitbang_exchange_def Let_def fd_write_def)

lemma read_loop_blocked:
  assumes "rx st = []"
  shows "swd_read_loop (Suc fuel) cmd val d st
         = Blocked (st\<lparr>tx := tx st @ [0xF0] @ hex2 8 @ hex2 0 @ hex2 1 @ hex_bytes [cmd OR 0x81],
                       frame := Suc (frame st)\<rparr>)"
  using write_exchange_blocked [of "next_frame st" 8 0 "[cmd OR SWD_CMD_START OR SWD_CMD_PARK]"] assms
  by (simp add: Let_def DIV_ROUND_UP_def next_frame_def payload_hex_bytes exchange_header_hex cmd_framed)

lemma read_wait_then_faulted_clear:
  assumes len: "length (local_buf st) = 1024" and latch: "queued_retval st = ERROR_OK"
    and rx: "rx st = ack_reply # wait_reply # ack_reply # write_fault_reply # ack_reply # r"
  shows "\<exists>lb. length lb = 1024
    \<and> swd_read_loop (Suc (Suc fuel)) cmd val d st
        = swd_read_loop (Suc fuel) (cmd OR SWD_CMD_START OR SWD_CMD_PARK) val d
            (st\<lparr>tx := tx st @ read_attempt_tx cmd @ clear_write_tx 0x08 (stack_byte st (Suc (frame st)) 4),
                rx := r, local_buf := lb, queued_retval := 4, frame := Suc (Suc (frame st))\<rparr>)"
proof -
  from read_attempt_wait [OF len rx, of "Suc fuel" cmd val d]
  obtain lb1 where len1: "length lb1 = 1024"
    and step: "swd_read_loop (Suc (Suc fuel)) cmd val d st
        = and_then (swd_clear_sticky_errors (Suc fuel)
             (st\<lparr>tx := tx st @ read_attempt_tx cmd, rx := ack_reply # write_fault_reply # ack_reply # r,
                 local_buf := lb1, frame := Suc (frame st)\<rparr>))
            (\<lambda>u st4. swd_read_loop (Suc fuel) (cmd OR SWD_CMD_START OR SWD_CMD_PARK) val d st4)"
    by blast
  let ?st1 = "st\<lparr>tx := tx st @ read_attempt_tx cmd, rx := ack_reply # write_fault_reply # ack_reply # r,
                 local_buf := lb1, frame := Suc (frame st)\<rparr>"
  from clear_write_fault [of ?st1 r fuel] len1 latch
  have clear: "swd_clear_sticky_errors (Suc fuel) ?st1
      = Done () (st\<lparr>tx := tx st @ read_attempt_tx cmd @ clear_write_tx 0x08 (stack_byte st (Suc (frame st)) 4),
                    rx := r, local_buf := lb1[0 := 0], queued_retval := 4, frame := Suc (Suc (frame st))\<rparr>)"
    by simp
  show ?thesis
    unfolding step clear and_then.simps using len1 by (intro exI [of _ "lb1[0 := 0]"]) simp
qed



lemma latch_update_commute:
  "r\<lparr>queued_retval := q, tx := t\<rparr> = r\<lparr>tx := t, queued_retval := q\<rparr>"
  "r\<lparr>queued_retval := q, rx := x\<rparr> = r\<lparr>rx := x, queued_retval := q\<rparr>"
  "r\<lparr>queued_retval := q, slept := s\<rparr> = r\<lparr>slept := s, queued_retval := q\<rparr>"
  "r\<lparr>queued_retval := q, local_buf := l\<rparr> = r\<lparr>local_buf := l, queued_retval := q\<rparr>"
  by (cases r, simp)+

lemma latched_run_blocked:
  assumes len: "length (local_buf st) = 1024" and latch: "queued_retval st = ERROR_OK"
    and rx: "rx st = latching_stream"
  shows "\<exists>lb. swd_read_loop (Suc (Suc fuel)) cmd val d st
        = Blocked (st\<lparr>tx := tx st @ read_attempt_tx cmd @ clear_write_tx 0x08 (stack_byte st (Suc (frame st)) 4)
                             @ [0xF0] @ hex2 8 @ hex2 0 @ hex2 1 @ hex_bytes [cmd OR 0x81],
                       rx := [], local_buf := lb, queued_retval := 4, frame := Suc (Suc (Suc (frame st)))\<rparr>)"
proof -
  from rx have rx': "rx st = ack_reply # wait_reply # ack_reply # write_fault_reply # ack_reply # []"
    by (simp add: latching_stream_def)
  from read_wait_then_faulted_clear [OF len latch rx', of fuel cmd val d]
  obtain lb where "swd_read_loop (Suc (Suc fuel)) cmd val d st
        = swd_read_loop (Suc fuel) (cmd OR SWD_CMD_START OR SWD_CMD_PARK) val d
            (st\<lparr>tx := tx st @ read_attempt_tx cmd @ clear_write_tx 0x08 (stack_byte st (Suc (frame st)) 4),
                rx := [], local_buf := lb, queued_retval := 4, frame := Suc (Suc (frame st))\<rparr>)"
    by blast
  then show ?thesis
    by (intro exI [of _ lb]) (simp add: read_loop_blocked cmd_framed cmd_framed_twice del: swd_read_loop.simps)
qed

lemma cleared_latch_run:
  assumes len: "length (local_buf st) = 1024" and latch: "queued_retval st = ERROR_OK"
    and rx: "rx st = latching_stream @ ack_reply # none_reply # r"
  shows "\<exists>lb. length lb = 1024
    \<and> swd_read_loop (Suc (Suc fuel)) cmd val d st
        = Done val (st\<lparr>tx := tx st @ read_attempt_tx cmd
                             @ clear_write_tx 0x08 (stack_byte st (Suc (frame st)) 4)
                             @ read_attempt_tx cmd,
                       rx := r, local_buf := lb, queued_retval := 0,
                       frame := Suc (Suc (Suc (frame st)))\<rparr>)"
proof -
  from rx have rx': "rx st = ack_reply # wait_reply # ack_reply # write_fault_reply # ack_reply
      # (ack_reply # none_reply # r)"
    by (simp add: latching_stream_def)
  from read_wait_then_faulted_clear [OF len latch rx', of fuel cmd val d]
  obtain lb1 where len1: "length lb1 = 1024"
    and step: "swd_read_loop (Suc (Suc fuel)) cmd val d st
        = swd_read_loop (Suc fuel) (cmd OR SWD_CMD_START OR SWD_CMD_PARK) val d
            (st\<lparr>tx := tx st @ read_attempt_tx cmd @ clear_write_tx 0x08 (stack_byte st (Suc (frame st)) 4),
                rx := ack_reply # none_reply # r, local_buf := lb1, queued_retval := 4,
                frame := Suc (Suc (frame st))\<rparr>)"
    by blast
  let ?st2 = "st\<lparr>tx := tx st @ read_attempt_tx cmd @ clear_write_tx 0x08 (stack_byte st (Suc (frame st)) 4),
                rx := ack_reply # none_reply # r, local_buf := lb1, queued_retval := 4,
                frame := Suc (Suc (frame st))\<rparr>"
  from read_attempt_none [of ?st2 r fuel "cmd OR SWD_CMD_START OR SWD_CMD_PARK" val d] len1
  obtain lb where len2: "length lb = 1024"
    and fin: "swd_read_loop (Suc fuel) (cmd OR SWD_CMD_START OR SWD_CMD_PARK) val d ?st2
        = Done val (st\<lparr>tx := tx st @ read_attempt_tx cmd
                             @ clear_write_tx 0x08 (stack_byte st (Suc (frame st)) 4)
                             @ read_attempt_tx cmd,
                       rx := r, local_buf := lb, queued_retval := 0,
                       frame := Suc (Suc (Suc (frame st)))\<rparr>)"
    by (auto simp add: read_attempt_tx_framed)
  show ?thesis unfolding step fin using len2 by blast
qed



text \<open>
  Claim C3 fails in the code. A register read is entered with the latch clear and
  answered WAIT; its clear-sticky-errors write is answered FAULT and latches 4.
  \<^verbatim>\<open>for (;;)\<close> does not test the latch: with the latch holding 4 the read sends
  its command again (and waits there for ever if the adapter stays silent). When
  that attempt gets no acknowledgement, \<^verbatim>\<open>queued_retval = ack\<close> stores 0, which is
  \<^verbatim>\<open>ERROR_OK\<close>: the read has cleared the latch. Run-queue then returns \<^verbatim>\<open>ERROR_OK\<close>,
  the FAULT is never reported, and a further read of the batch runs and returns
  data.
\<close>

theorem retry_clears_latched_fault:
  "retval_of (bitbang_swd_read_reg 2 idcode_read (Some 0) 0 (swd_start latching_stream)) = None
   \<and> map_option queued_retval (state_of (bitbang_swd_read_reg 2 idcode_read (Some 0) 0
         (swd_start latching_stream))) = Some (uint SWD_ACK_FAULT)
   \<and> map_option tx (state_of (bitbang_swd_read_reg 2 idcode_read (Some 0) 0
         (swd_start latching_stream)))
     = Some (read_attempt_tx idcode_read @ clear_write_tx 0x08 0
             @ [0xF0, 0x30, 0x38, 0x30, 0x30, 0x30, 0x31, 0x41, 0x35])
   \<and> retval_of (bitbang_swd_read_reg 2 idcode_read (Some 0) 0 (swd_start cleared_latch_stream))
     = Some (Some 0)
   \<and> map_option tx (state_of (bitbang_swd_read_reg 2 idcode_read (Some 0) 0
         (swd_start cleared_latch_stream)))
     = Some (read_attempt_tx idcode_read @ clear_write_tx 0x08 0 @ read_attempt_tx idcode_read)
   \<and> map_option queued_retval (state_of (bitbang_swd_read_reg 2 idcode_read (Some 0) 0
         (swd_start cleared_latch_stream))) = Some ERROR_OK
   \<and> retval_of (and_then (bitbang_swd_read_reg 2 idcode_read (Some 0) 0 (swd_start cleared_latch_stream))
         (\<lambda>val st. bitbang_swd_run_queue st)) = Some ERROR_OK
   \<and> retval_of (and_then (bitbang_swd_read_reg 2 idcode_read (Some 0) 0 (swd_start cleared_latch_stream))
         (\<lambda>val st. bitbang_swd_read_reg 1 idcode_read val 0 st)) = Some (Some 1)
   \<and> map_option tx (state_of
         (and_then (bitbang_swd_read_reg 2 idcode_read (Some 0) 0 (swd_start cleared_latch_stream))
            (\<lambda>val st. bitbang_swd_read_reg 1 idcode_read val 0 st)))
     = Some (read_attempt_tx idcode_read @ clear_write_tx 0x08 0 @ read_attempt_tx idcode_read
             @ read_attempt_tx idcode_read)
   \<and> read_attempt_tx idcode_read
       = [0xF0, 0x30, 0x38, 0x30, 0x30, 0x30, 0x31, 0x41, 0x35, 0xE0,
          0xF1, 0x32, 0x36, 0x30, 0x30, 0x30, 0x35, 0xE1]
   \<and> clear_write_tx 0x08 0
       = [0xF0, 0x30, 0x38, 0x30, 0x30, 0x30, 0x31, 0x38, 0x31, 0xE0,
          0xF1, 0x30, 0x35, 0x30, 0x30, 0x30, 0x31, 0xE1,
          0xF0, 0x32, 0x31, 0x30, 0x35, 0x30, 0x35,
          0x43, 0x38, 0x30, 0x33, 0x30, 0x30, 0x30, 0x30, 0x30, 0x30]"
proof -
  let ?s1 = "swd_start latching_stream"
  let ?s2 = "swd_start cleared_latch_stream"
  let ?A = "read_attempt_tx idcode_read"
  let ?C = "clear_write_tx 0x08 0"
  have rd: "idcode_read AND SWD_CMD_RnW \<noteq> 0" by (simp add: idcode_read_def SWD_CMD_RnW_def)
  have dp: "ap_delay_tx idcode_read 0 = [] \<and> ap_delay_us idcode_read = 0"
    by (simp add: ap_delay_tx_def ap_delay_us_def idcode_read_def SWD_CMD_APnDP_def)
  have cmdhex: "[0xF0] @ hex2 8 @ hex2 0 @ hex2 1 @ hex_bytes [idcode_read OR 0x81]
      = [0xF0, 0x30, 0x38, 0x30, 0x30, 0x30, 0x31, 0x41, 0x35]"
    by (simp add: wire_simps idcode_read_def)
  from latched_run_blocked [OF sample_starts(1) sample_starts(2) sample_starts(3), of 0 idcode_read "Some 0" 0]
  obtain lb1 where "swd_read_loop (Suc (Suc 0)) idcode_read (Some 0) 0 ?s1
        = Blocked (?s1\<lparr>tx := ?A @ ?C @ [0xF0, 0x30, 0x38, 0x30, 0x30, 0x30, 0x31, 0x41, 0x35],
                       rx := [], local_buf := lb1, queued_retval := 4, frame := Suc (Suc (Suc 0))\<rparr>)"
    using cmdhex by (auto simp add: sample_starts latch_update_commute simp del: swd_read_loop.simps)
  then have run1: "bitbang_swd_read_reg 2 idcode_read (Some 0) 0 ?s1
        = Blocked (?s1\<lparr>tx := ?A @ ?C @ [0xF0, 0x30, 0x38, 0x30, 0x30, 0x30, 0x31, 0x41, 0x35],
                       rx := [], local_buf := lb1, queued_retval := 4, frame := Suc (Suc (Suc 0))\<rparr>)"
    using rd by (simp add: bitbang_swd_read_reg_def sample_starts numeral_3_eq_3 numeral_2_eq_2
        del: swd_read_loop.simps)
  have m1: "retval_of (bitbang_swd_read_reg 2 idcode_read (Some 0) 0 ?s1) = None"
    "map_option queued_retval (state_of (bitbang_swd_read_reg 2 idcode_read (Some 0) 0 ?s1))
       = Some (uint SWD_ACK_FAULT)"
    "map_option tx (state_of (bitbang_swd_read_reg 2 idcode_read (Some 0) 0 ?s1))
       = Some (?A @ ?C @ [0xF0, 0x30, 0x38, 0x30, 0x30, 0x30, 0x31, 0x41, 0x35])"
    unfolding run1 by (simp_all add: SWD_ACK_FAULT_def)
  have rx2: "rx ?s2 = latching_stream @ ack_reply # none_reply # [ack_reply, ok_reply]"
    by (simp add: sample_starts cleared_latch_stream_def)
  from cleared_latch_run [OF sample_starts(1) sample_starts(2) rx2, of 0 idcode_read "Some 0" 0]
  obtain lb2 where len2: "length lb2 = 1024" and "swd_read_loop (Suc (Suc 0)) idcode_read (Some 0) 0 ?s2
        = Done (Some 0) (?s2\<lparr>tx := ?A @ ?C @ ?A, rx := [ack_reply, ok_reply], local_buf := lb2,
                              queued_retval := 0, frame := Suc (Suc (Suc 0))\<rparr>)"
    by (auto simp add: sample_starts latch_update_commute simp del: swd_read_loop.simps)
  then have run2: "bitbang_swd_read_reg 2 idcode_read (Some 0) 0 ?s2
        = Done (Some 0) (?s2\<lparr>tx := ?A @ ?C @ ?A, rx := [ack_reply, ok_reply], local_buf := lb2,
                              queued_retval := 0, frame := Suc (Suc (Suc 0))\<rparr>)"
    using rd by (simp add: bitbang_swd_read_reg_def sample_starts numeral_3_eq_3 numeral_2_eq_2
        del: swd_read_loop.simps)
  let ?s3 = "?s2\<lparr>tx := ?A @ ?C @ ?A, rx := [ack_reply, ok_reply], local_buf := lb2,
                 queued_retval := 0, frame := Suc (Suc (Suc 0))\<rparr>"
  have m2: "retval_of (bitbang_swd_read_reg 2 idcode_read (Some 0) 0 ?s2) = Some (Some 0)"
    "map_option tx (state_of (bitbang_swd_read_reg 2 idcode_read (Some 0) 0 ?s2)) = Some (?A @ ?C @ ?A)"
    "map_option queued_retval (state_of (bitbang_swd_read_reg 2 idcode_read (Some 0) 0 ?s2))
       = Some ERROR_OK"
    unfolding run2 by (simp_all add: ERROR_OK_def)
  have m3: "retval_of (and_then (bitbang_swd_read_reg 2 idcode_read (Some 0) 0 ?s2)
         (\<lambda>val st. bitbang_swd_run_queue st)) = Some ERROR_OK"
    unfolding run2 by (simp add: bitbang_swd_run_queue_def exchange_no_buffer ERROR_OK_def)
  from read_attempt_ok [of ?s3 "[]" 0 idcode_read 0 0] len2
  obtain lb3 where "swd_read_loop (Suc 0) idcode_read (Some 0) 0 ?s3
        = Done (Some 1) (?s2\<lparr>tx := ?A @ ?C @ ?A @ ?A, rx := [], slept := 0, local_buf := lb3,
                              queued_retval := 0, frame := Suc (Suc (Suc (Suc 0)))\<rparr>)"
    by (auto simp add: dp sample_starts latch_update_commute simp del: swd_read_loop.simps)
  then have run3: "bitbang_swd_read_reg 1 idcode_read (Some 0) 0 ?s3
        = Done (Some 1) (?s2\<lparr>tx := ?A @ ?C @ ?A @ ?A, rx := [], slept := 0, local_buf := lb3,
                              queued_retval := 0, frame := Suc (Suc (Suc (Suc 0)))\<rparr>)"
    using rd by (simp add: bitbang_swd_read_reg_def ERROR_OK_def del: swd_read_loop.simps)
  have m4: "retval_of (and_then (bitbang_swd_read_reg 2 idcode_read (Some 0) 0 ?s2)
         (\<lambda>val st. bitbang_swd_read_reg 1 idcode_read val 0 st)) = Some (Some 1)"
    "map_option tx (state_of
         (and_then (bitbang_swd_read_reg 2 idcode_read (Some 0) 0 ?s2)
            (\<lambda>val st. bitbang_swd_read_reg 1 idcode_read val 0 st)))
     = Some (?A @ ?C @ ?A @ ?A)"
    unfolding run2 and_then.simps run3 by simp_all
  show ?thesis by (intro conjI m1 m2 m3 m4 sample_wire(1) sample_wire(4))
qed

end
